theory Spec2Isabelle
  imports Complex_Main "HOL-Library.AList" "HOL-Library.List_Lexorder"
begin

section \<open>The knowledge-base builder: a shallow embedding\<close>

text \<open>
  The theory embeds the parts of the offline knowledge-base builder that its specification
  makes claims about: text cleaning and chunking (\<^verbatim>\<open>scripts/build_index.py\<close>,
  \<^verbatim>\<open>scripts/parsers/pdf_parser.py\<close>), the record parsers
  (\<^verbatim>\<open>scripts/parsers/json_parser.py\<close>, \<^verbatim>\<open>scripts/parsers/plant_parser.py\<close>),
  the two-phase index build, the manifest generator and the verifier.

  Python values are modelled as follows. A \<^verbatim>\<open>str\<close> is a list of Unicode code points
  (\<open>pystr\<close>), so that \<open>length\<close> is Python's \<^verbatim>\<open>len\<close>; an \<^verbatim>\<open>int\<close> is an \<open>int\<close>; a
  generator is the list of the values it yields; an exception is the \<open>Inl\<close> branch of a sum;
  a file on disk is a field of an explicit file-system record.
\<close>

subsection \<open>Strings\<close>

type_synonym pychar = nat
type_synonym pystr = "pychar list"

text \<open>\<open>str\<close> reads an ASCII literal as a Python string.\<close>

definition str :: "string \<Rightarrow> pystr" where
  "str s = map of_char s"

definition SP :: pychar where "SP = 32"
definition NL :: pychar where "NL = 10"
definition CR :: pychar where "CR = 13"
definition TAB :: pychar where "TAB = 9"

definition len :: "'a list \<Rightarrow> int" where
  "len xs = int (length xs)"

text \<open>
  Python's Unicode whitespace: the code points for which \<^verbatim>\<open>str.isspace\<close> holds. The
  regular expression class \<^verbatim>\<open>\s\<close> (on \<^verbatim>\<open>str\<close> patterns) and \<^verbatim>\<open>str.strip()\<close> both use
  this set.
\<close>

definition is_space :: "pychar \<Rightarrow> bool" where
  "is_space c \<longleftrightarrow>
     (9 \<le> c \<and> c \<le> 13) \<or> (28 \<le> c \<and> c \<le> 32) \<or> c = 133 \<or> c = 160 \<or> c = 5760 \<or>
     (8192 \<le> c \<and> c \<le> 8202) \<or> c = 8232 \<or> c = 8233 \<or> c = 8239 \<or> c = 8287 \<or> c = 12288"

text \<open>\<^verbatim>\<open>s.strip()\<close>: whitespace removed at both ends.\<close>

definition strip :: "pystr \<Rightarrow> pystr" where
  "strip s = rev (dropWhile is_space (rev (dropWhile is_space s)))"

text \<open>\<^verbatim>\<open>s[-k:]\<close> for \<open>k > 0\<close>: the last \<open>k\<close> characters, all of \<open>s\<close> when it is shorter.\<close>

definition last_chars :: "int \<Rightarrow> pystr \<Rightarrow> pystr" where
  "last_chars k s = drop (length s - nat k) s"

subsection \<open>The regular expressions of the cleaners\<close>

text \<open>
  \<^verbatim>\<open>re.sub(r'\s+', ' ', text)\<close> and \<^verbatim>\<open>re.sub(r'[ \t]+', ' ', text)\<close>: every maximal run of
  characters of the class \<open>p\<close> becomes one space.
\<close>

function sub_runs :: "(pychar \<Rightarrow> bool) \<Rightarrow> pystr \<Rightarrow> pystr" where
  "sub_runs p [] = []"
| "sub_runs p (c # cs) =
     (if p c then SP # sub_runs p (dropWhile p cs) else c # sub_runs p cs)"
  by pat_completeness auto
termination
  by (relation "measure (\<lambda>(p, cs). length cs)")
     (auto simp: length_dropWhile_le less_Suc_eq_le)

text \<open>
  \<^verbatim>\<open>re.sub(r'\n{3,}', '\n\n', text)\<close>: a maximal run of three or more newlines becomes two
  newlines; shorter runs stay.
\<close>

function sub_newlines :: "pystr \<Rightarrow> pystr" where
  "sub_newlines [] = []"
| "sub_newlines (c # cs) =
     (if c = NL then
        (if 2 \<le> length (takeWhile (\<lambda>d. d = NL) cs) then [NL, NL]
         else NL # takeWhile (\<lambda>d. d = NL) cs) @ sub_newlines (dropWhile (\<lambda>d. d = NL) cs)
      else c # sub_newlines cs)"
  by pat_completeness auto
termination
  by (relation "measure length")
     (auto simp: length_dropWhile_le less_Suc_eq_le)

text \<open>\<^verbatim>\<open>re.sub(r'\r\n?', '\n', text)\<close>: a carriage return, with the newline after it if any, becomes one newline.\<close>

fun sub_cr :: "pystr \<Rightarrow> pystr" where
  "sub_cr [] = []"
| "sub_cr [c] = (if c = CR then [NL] else [c])"
| "sub_cr (c # d # cs) =
     (if c = CR then (if d = NL then NL # sub_cr cs else NL # sub_cr (d # cs))
      else c # sub_cr (d # cs))"

text \<open>
  \<^verbatim>\<open>re.split(r'\n\n+', text)\<close>: the pieces between maximal runs of two or more newlines,
  the empty pieces at the ends included; a single newline stays inside its piece.
\<close>

function split_paragraphs :: "pystr \<Rightarrow> pystr list" where
  "split_paragraphs [] = [[]]"
| "split_paragraphs (c # cs) =
     (if c = NL \<and> cs \<noteq> [] \<and> hd cs = NL
      then [] # split_paragraphs (dropWhile (\<lambda>d. d = NL) cs)
      else (case split_paragraphs cs of
              [] \<Rightarrow> [[c]]
            | p # ps \<Rightarrow> (c # p) # ps))"
  by pat_completeness auto
termination
  by (relation "measure length")
     (auto simp: length_dropWhile_le less_Suc_eq_le)

subsection \<open>Cleaning and chunking in \<^verbatim>\<open>build_index.py\<close>\<close>

definition CHUNK_SIZE :: int where "CHUNK_SIZE = 512"
definition CHUNK_OVERLAP :: int where "CHUNK_OVERLAP = 64"
definition MIN_CHUNK_SIZE :: int where "MIN_CHUNK_SIZE = 100"

definition clean_text :: "pystr \<Rightarrow> pystr" where
  "clean_text text = strip (sub_newlines (sub_runs is_space text))"

text \<open>
  The body of the \<^verbatim>\<open>for para in paragraphs\<close> loop of \<^verbatim>\<open>chunk_text\<close>, with the buffer
  \<open>current_chunk\<close> as an argument; the result is the list of the chunks yielded, the one
  after the loop included.
\<close>

fun chunk_loop :: "int \<Rightarrow> int \<Rightarrow> pystr \<Rightarrow> pystr list \<Rightarrow> pystr list" where
  "chunk_loop chunk_size overlap current_chunk [] =
     (if current_chunk \<noteq> [] \<and> len current_chunk \<ge> MIN_CHUNK_SIZE then [current_chunk] else [])"
| "chunk_loop chunk_size overlap current_chunk (para # paragraphs) =
     (let para = strip para in
      if para = [] then chunk_loop chunk_size overlap current_chunk paragraphs
      else if len current_chunk + len para + 2 > chunk_size \<and> len current_chunk \<ge> MIN_CHUNK_SIZE
      then current_chunk #
           chunk_loop chunk_size overlap
             (if overlap > 0 then last_chars overlap current_chunk @ [SP] @ para else para)
             paragraphs
      else chunk_loop chunk_size overlap
             (if current_chunk \<noteq> [] then current_chunk @ [NL, NL] @ para else para)
             paragraphs)"

definition chunk_text :: "pystr \<Rightarrow> int \<Rightarrow> int \<Rightarrow> pystr list" where
  "chunk_text text chunk_size overlap =
     (let text = clean_text text in
      if len text < MIN_CHUNK_SIZE then []
      else chunk_loop chunk_size overlap [] (split_paragraphs text))"

subsection \<open>Cleaning and chunking in \<^verbatim>\<open>PDFParser\<close>\<close>

record pdf_parser =
  chunk_size :: int
  chunk_overlap :: int
  min_chunk_size :: int

text \<open>\<^verbatim>\<open>PDFParser._clean_text\<close>.\<close>

definition pdf_clean_text :: "pystr \<Rightarrow> pystr" where
  "pdf_clean_text text =
     strip (sub_newlines (sub_cr (sub_runs (\<lambda>c. c = SP \<or> c = TAB) text)))"

text \<open>
  The loop of \<^verbatim>\<open>PDFParser._chunk_text\<close>. Unlike \<open>chunk_loop\<close>, a buffer below the minimum
  size is not kept when the next paragraph overflows: only its last \<open>chunk_overlap\<close>
  characters seed the new buffer.
\<close>

fun pdf_chunk_loop :: "pdf_parser \<Rightarrow> pystr \<Rightarrow> pystr list \<Rightarrow> pystr list" where
  "pdf_chunk_loop self current_chunk [] =
     (if current_chunk \<noteq> [] \<and> len current_chunk \<ge> min_chunk_size self
      then [current_chunk] else [])"
| "pdf_chunk_loop self current_chunk (para # paragraphs) =
     (let para = strip para in
      if para = [] then pdf_chunk_loop self current_chunk paragraphs
      else if len current_chunk + len para + 2 > chunk_size self
      then (if len current_chunk \<ge> min_chunk_size self then [current_chunk] else []) @
           pdf_chunk_loop self
             (if chunk_overlap self > 0
              then last_chars (chunk_overlap self) current_chunk @ [SP] @ para else para)
             paragraphs
      else pdf_chunk_loop self
             (if current_chunk \<noteq> [] then current_chunk @ [NL, NL] @ para else para)
             paragraphs)"

text \<open>\<^verbatim>\<open>PDFParser._chunk_text\<close>.\<close>

definition pdf_chunk_text :: "pdf_parser \<Rightarrow> pystr \<Rightarrow> pystr list" where
  "pdf_chunk_text self text =
     (if len text < min_chunk_size self then []
      else pdf_chunk_loop self [] (split_paragraphs text))"

subsection \<open>Normal forms of cleaned text\<close>

text \<open>
  Two predicates describe cleaned text: no two adjacent characters of a class, and no
  three newlines in a row. They are used to show that the cleaners leave cleaned text
  as it is.
\<close>

fun no_adj :: "(pychar \<Rightarrow> bool) \<Rightarrow> pystr \<Rightarrow> bool" where
  "no_adj p (c # d # cs) = (\<not> (p c \<and> p d) \<and> no_adj p (d # cs))"
| "no_adj p cs = True"

fun no_nl3 :: "pystr \<Rightarrow> bool" where
  "no_nl3 (a # b # c # cs) = (\<not> (a = NL \<and> b = NL \<and> c = NL) \<and> no_nl3 (b # c # cs))"
| "no_nl3 cs = True"

subsection \<open>JSON values and the Python built-ins the parsers call\<close>

text \<open>
  What \<^verbatim>\<open>json.load\<close> returns. A Python \<^verbatim>\<open>dict\<close> is an association list in insertion
  order (its keys are distinct); \<^verbatim>\<open>None\<close> is \<open>JNull\<close>. A float is a finite real: the
  infinities and NaN are left out.
\<close>

datatype json =
    JNull
  | JBool bool
  | JInt int
  | JFloat real
  | JStr pystr
  | JList "json list"
  | JObj "(pystr \<times> json) list"

type_synonym pydict = "(pystr \<times> json) list"

text \<open>
  Library functions that the parsers call and that are not part of the repository are
  parameters of the model: \<open>format_value\<close> is \<^verbatim>\<open>str(v)\<close> (also inside an f-string) for
  a value \<open>v\<close> that is not a \<^verbatim>\<open>str\<close>, \<open>title_case\<close> is \<^verbatim>\<open>str.title\<close>, \<open>json_dumps\<close> is
  \<^verbatim>\<open>json.dumps(item, indent=2)\<close>, and \<open>int_of_str\<close> is \<^verbatim>\<open>int(s)\<close> on a string, \<open>None\<close>
  where it raises \<^verbatim>\<open>ValueError\<close>.
\<close>

record pylib =
  format_value :: "json \<Rightarrow> pystr"
  title_case :: "pystr \<Rightarrow> pystr"
  json_dumps :: "pydict \<Rightarrow> pystr"
  int_of_str :: "pystr \<Rightarrow> int option"

text \<open>Python truth values.\<close>

fun truthy :: "json \<Rightarrow> bool" where
  "truthy JNull = False"
| "truthy (JBool b) = b"
| "truthy (JInt n) = (n \<noteq> 0)"
| "truthy (JFloat r) = (r \<noteq> 0)"
| "truthy (JStr s) = (s \<noteq> [])"
| "truthy (JList xs) = (xs \<noteq> [])"
| "truthy (JObj kvs) = (kvs \<noteq> [])"

text \<open>\<^verbatim>\<open>a or b\<close>, \<^verbatim>\<open>item.get(k)\<close>, \<^verbatim>\<open>k in item\<close>, \<^verbatim>\<open>str(v)\<close> and \<^verbatim>\<open>sep.join(parts)\<close>.\<close>

definition py_or :: "json \<Rightarrow> json \<Rightarrow> json" where
  "py_or a b = (if truthy a then a else b)"

definition dict_get :: "pydict \<Rightarrow> pystr \<Rightarrow> json" where
  "dict_get item k = (case map_of item k of None \<Rightarrow> JNull | Some v \<Rightarrow> v)"

definition has_key :: "pydict \<Rightarrow> pystr \<Rightarrow> bool" where
  "has_key item k = (map_of item k \<noteq> None)"

definition py_str :: "pylib \<Rightarrow> json \<Rightarrow> pystr" where
  "py_str lib v = (case v of JStr s \<Rightarrow> s | _ \<Rightarrow> format_value lib v)"

fun join :: "pystr \<Rightarrow> pystr list \<Rightarrow> pystr" where
  "join sep [] = []"
| "join sep [p] = p"
| "join sep (p # q # ps) = p @ sep @ join sep (q # ps)"

text \<open>
  \<^verbatim>\<open>key.lower()\<close> as far as the parsers use it, which is to compare the result with ASCII
  words: the letters A to Z are lowered and every other code point is kept. (Python also
  lowers letters outside ASCII; none of them becomes a letter of the words compared with.)
\<close>

definition py_lower :: "pystr \<Rightarrow> pystr" where
  "py_lower s = map (\<lambda>c. if 65 \<le> c \<and> c \<le> 90 then c + 32 else c) s"

text \<open>\<^verbatim>\<open>key.replace('_', ' ')\<close>.\<close>

definition replace_underscore :: "pystr \<Rightarrow> pystr" where
  "replace_underscore s = map (\<lambda>c. if c = 95 then SP else c) s"

text \<open>\<^verbatim>\<open>sub in s\<close> on strings.\<close>

fun starts_with :: "pystr \<Rightarrow> pystr \<Rightarrow> bool" where
  "starts_with [] s = True"
| "starts_with (a # as) [] = False"
| "starts_with (a # as) (c # cs) = (a = c \<and> starts_with as cs)"

fun contains :: "pystr \<Rightarrow> pystr \<Rightarrow> bool" where
  "contains sub [] = (sub = [])"
| "contains sub (c # cs) = (starts_with sub (c # cs) \<or> contains sub cs)"

text \<open>
  \<^verbatim>\<open>str.title\<close> on ASCII text: a letter is raised after a character that is not a letter
  and lowered after a letter. The concrete records below are evaluated with it.
\<close>

fun ascii_title_from :: "bool \<Rightarrow> pystr \<Rightarrow> pystr" where
  "ascii_title_from prev [] = []"
| "ascii_title_from prev (c # cs) =
     (if 65 \<le> c \<and> c \<le> 90 then (if prev then c + 32 else c) # ascii_title_from True cs
      else if 97 \<le> c \<and> c \<le> 122 then (if prev then c else c - 32) # ascii_title_from True cs
      else c # ascii_title_from False cs)"

definition ascii_lib :: pylib where
  "ascii_lib = \<lparr>format_value = (\<lambda>v. []), title_case = ascii_title_from False,
                 json_dumps = (\<lambda>d. []), int_of_str = (\<lambda>s. None)\<rparr>"

subsection \<open>Entries and \<^verbatim>\<open>parse_json_item\<close> of \<^verbatim>\<open>build_index.py\<close>\<close>

text \<open>
  The class \<^verbatim>\<open>Entry\<close>. Its constructor draws \<open>entry_id\<close> from \<^verbatim>\<open>uuid4\<close> and reads the
  clock for \<open>created_at\<close>; both are arguments of the functions that build an entry.
\<close>

record entry =
  entry_id :: pystr
  title :: pystr
  content :: pystr
  category :: pystr
  subcategory :: "pystr option"
  safety_level :: pystr
  safety_notes :: "pystr option"
  source_file :: "pystr option"
  source_page :: "int option"
  source_url :: "pystr option"
  license :: "pystr option"
  tags :: "pystr list"
  created_at :: pystr

definition CATEGORY_SAFETY :: "(pystr \<times> pystr) list" where
  "CATEGORY_SAFETY =
     [(str ''survival'', str ''caution''),
      (str ''navigation'', str ''safe''),
      (str ''first_aid'', str ''warning''),
      (str ''plants'', str ''danger''),
      (str ''knots'', str ''safe''),
      (str ''weather'', str ''safe''),
      (str ''comms'', str ''safe''),
      (str ''equipment'', str ''caution'')]"

text \<open>\<^verbatim>\<open>CATEGORY_SAFETY.get(category, "safe")\<close>.\<close>

definition category_safety :: "pystr \<Rightarrow> pystr" where
  "category_safety c = (case map_of CATEGORY_SAFETY c of None \<Rightarrow> str ''safe'' | Some l \<Rightarrow> l)"

text \<open>The loop of \<^verbatim>\<open>parse_json_item\<close> that collects \<open>content_parts\<close>.\<close>

fun item_content_parts :: "pydict \<Rightarrow> pystr list" where
  "item_content_parts [] = []"
| "item_content_parts ((key, val) # rest) =
     (if py_lower key \<in> set [str ''name'', str ''title'', str ''id'']
      then item_content_parts rest
      else (case val of
              JStr v \<Rightarrow> (if len v > 10 then (key @ str '': '' @ v) # item_content_parts rest
                         else item_content_parts rest)
            | _ \<Rightarrow> item_content_parts rest))"

definition item_content :: "pylib \<Rightarrow> pydict \<Rightarrow> pystr" where
  "item_content lib item =
     (if item_content_parts item \<noteq> [] then join [NL] (item_content_parts item)
      else json_dumps lib item)"

definition PLANTS_NOTE :: pystr where
  "PLANTS_NOTE = str ''WARNING: Never consume plants based solely on this information.''"

definition parse_json_item ::
    "pylib \<Rightarrow> pystr \<Rightarrow> pystr \<Rightarrow> pydict \<Rightarrow> pystr \<Rightarrow> pystr \<Rightarrow> entry list" where
  "parse_json_item lib uid now item cat src =
     (let ttl = py_or (py_or (py_or (dict_get item (str ''name'')) (dict_get item (str ''title'')))
                             (dict_get item (str ''common_name''))) (JStr (str ''Unknown''));
          cont = item_content lib item
      in if len cont < MIN_CHUNK_SIZE then []
         else [\<lparr>entry_id = uid, title = py_str lib ttl, content = cont, category = cat,
                 subcategory = None,
                 safety_level = (if cat = str ''plants'' then str ''danger'' else category_safety cat),
                 safety_notes = (if cat = str ''plants'' then Some PLANTS_NOTE else None),
                 source_file = Some src, source_page = None, source_url = None,
                 license = Some (str ''public_domain''), tags = [cat], created_at = now\<rparr>])"

subsection \<open>\<^verbatim>\<open>JSONParser\<close>\<close>

record json_parser =
  title_fields :: "pystr list"
  content_fields :: "pystr list"
  min_content_length :: int

text \<open>\<^verbatim>\<open>JSONParser(title_fields, content_fields, min_content_length)\<close>: an empty list of fields
  is replaced by the default one.\<close>

definition JSONParser :: "pystr list \<Rightarrow> pystr list \<Rightarrow> int \<Rightarrow> json_parser" where
  "JSONParser tf cf m =
     \<lparr>title_fields = (if tf \<noteq> [] then tf
                       else [str ''name'', str ''title'', str ''common_name'', str ''label'',
                             str ''heading'']),
      content_fields = (if cf \<noteq> [] then cf
                        else [str ''description'', str ''content'', str ''text'', str ''body'',
                              str ''summary'', str ''notes'']),
      min_content_length = m\<rparr>"

record data_entry =
  data_title :: pystr
  data_content :: pystr
  data_metadata :: pydict
  data_source_file :: pystr

text \<open>The first loop of \<^verbatim>\<open>_parse_item\<close>: the first title field present with a true value.\<close>

fun find_title :: "pylib \<Rightarrow> pydict \<Rightarrow> pystr list \<Rightarrow> pystr option" where
  "find_title lib item [] = None"
| "find_title lib item (field # flds) =
     (if has_key item field \<and> truthy (dict_get item field)
      then Some (py_str lib (dict_get item field))
      else find_title lib item flds)"

fun is_str :: "json \<Rightarrow> bool" where
  "is_str (JStr s) = True"
| "is_str v = False"

fun the_str :: "json \<Rightarrow> pystr" where
  "the_str (JStr s) = s"
| "the_str v = []"

definition label :: "pylib \<Rightarrow> pystr \<Rightarrow> pystr" where
  "label lib key = str ''**'' @ title_case lib (replace_underscore key) @ str ''**: ''"

text \<open>
  The second loop of \<^verbatim>\<open>_parse_item\<close>, over \<^verbatim>\<open>item.items()\<close>: the result is the pair of
  \<open>content_parts\<close> and \<open>metadata\<close>.
\<close>

fun data_parts :: "pylib \<Rightarrow> json_parser \<Rightarrow> pydict \<Rightarrow> pystr list \<times> pydict" where
  "data_parts lib self [] = ([], [])"
| "data_parts lib self ((key, val) # rest) =
     (let (parts, meta) = data_parts lib self rest in
      if key \<in> set (title_fields self) then (parts, meta)
      else (case val of
              JStr v \<Rightarrow> (if len v > 20 then ((label lib key @ v) # parts, meta)
                         else (parts, (key, val) # meta))
            | JInt n \<Rightarrow> (parts, (key, val) # meta)
            | JFloat r \<Rightarrow> (parts, (key, val) # meta)
            | JBool b \<Rightarrow> (parts, (key, val) # meta)
            | JList xs \<Rightarrow> (if list_all is_str xs
                           then ((label lib key @ join (str '', '') (map the_str xs)) # parts, meta)
                           else (parts, meta))
            | _ \<Rightarrow> (parts, meta)))"

definition parse_item :: "pylib \<Rightarrow> json_parser \<Rightarrow> pydict \<Rightarrow> pystr \<Rightarrow> data_entry option" where
  "parse_item lib self item src =
     (let ttl = (case find_title lib item (title_fields self) of
                   None \<Rightarrow> str ''Untitled Entry''
                 | Some t \<Rightarrow> if t = [] then str ''Untitled Entry'' else t);
          (parts, meta) = data_parts lib self item;
          cont = join [NL, NL] parts
      in if len cont < min_content_length self then None
         else Some \<lparr>data_title = ttl, data_content = cont, data_metadata = meta,
                     data_source_file = src\<rparr>)"

subsection \<open>\<^verbatim>\<open>PlantParser\<close>\<close>

definition SAFETY_LEVELS :: "(int \<times> pystr) list" where
  "SAFETY_LEVELS =
     [(5, str ''caution''), (4, str ''caution''), (3, str ''warning''),
      (2, str ''danger''), (1, str ''lethal''), (0, str ''danger'')]"

text \<open>
  The disclaimer \<^verbatim>\<open>PLANT_SAFETY_WARNING\<close>: a newline, the warning sign (the code points
  9888 and 65039) and four lines of text.
\<close>

definition PLANT_SAFETY_WARNING :: pystr where
  "PLANT_SAFETY_WARNING =
     [NL, 9888, 65039] @
     str '' SAFETY WARNING: Never consume any plant based solely on this information.'' @ [NL] @
     str ''Always verify identification with multiple authoritative sources.'' @ [NL] @
     str ''Many plants have toxic look-alikes. When in doubt, do NOT eat it.'' @ [NL] @
     str ''Consult local experts and field guides specific to your region.'' @ [NL]"

record plant_entry =
  common_name :: pystr
  scientific_name :: json
  family :: json
  description :: pystr
  edibility :: json
  edibility_rating :: "int option"
  medicinal_uses :: json
  habitat :: json
  plant_safety_level :: pystr
  plant_safety_notes :: pystr
  plant_source_file :: pystr
  plant_metadata :: pydict

text \<open>
  \<^verbatim>\<open>int(v)\<close> inside \<^verbatim>\<open>try ... except (ValueError, TypeError)\<close>: \<open>None\<close> where it raises.
  A float is cut towards zero.
\<close>

definition py_int :: "pylib \<Rightarrow> json \<Rightarrow> int option" where
  "py_int lib v =
     (case v of
        JInt n \<Rightarrow> Some n
      | JBool b \<Rightarrow> Some (if b then 1 else 0)
      | JFloat r \<Rightarrow> Some (if 0 \<le> r then \<lfloor>r\<rfloor> else \<lceil>r\<rceil>)
      | JStr s \<Rightarrow> int_of_str lib s
      | _ \<Rightarrow> None)"

text \<open>The loop over the description fields.\<close>

fun field_parts :: "pylib \<Rightarrow> pydict \<Rightarrow> pystr list \<Rightarrow> pystr list" where
  "field_parts lib item [] = []"
| "field_parts lib item (field # flds) =
     (if has_key item field \<and> truthy (dict_get item field)
      then (label lib field @ py_str lib (dict_get item field)) # field_parts lib item flds
      else field_parts lib item flds)"

text \<open>A part that is appended only when its value is true.\<close>

definition opt_part :: "pylib \<Rightarrow> string \<Rightarrow> json \<Rightarrow> pystr list" where
  "opt_part lib name v = (if truthy v then [str name @ py_str lib v] else [])"

definition plant_skip_fields :: "pystr list" where
  "plant_skip_fields =
     [str ''common_name'', str ''scientific_name'', str ''family'', str ''description'',
      str ''edibility'', str ''edibility_rating'', str ''medicinal_uses'', str ''habitat'']"

fun plant_meta :: "pydict \<Rightarrow> pydict" where
  "plant_meta [] = []"
| "plant_meta ((key, val) # rest) =
     (if py_lower key \<notin> set plant_skip_fields \<and>
         (case val of JStr s \<Rightarrow> True | JInt n \<Rightarrow> True | JFloat r \<Rightarrow> True | JBool b \<Rightarrow> True
          | _ \<Rightarrow> False)
      then (key, val) # plant_meta rest else plant_meta rest)"

text \<open>The safety level that \<^verbatim>\<open>_parse_plant\<close> derives from the rating.\<close>

definition plant_safety :: "int option \<Rightarrow> pystr" where
  "plant_safety rating =
     (case rating of
        Some r \<Rightarrow> (case map_of SAFETY_LEVELS r of None \<Rightarrow> str ''danger'' | Some l \<Rightarrow> l)
      | None \<Rightarrow> str ''danger'')"

text \<open>The values that \<^verbatim>\<open>_parse_plant\<close> extracts from the record, each a chain of \<^verbatim>\<open>or\<close>.\<close>

definition plant_common_name :: "pydict \<Rightarrow> json" where
  "plant_common_name item =
     py_or (py_or (py_or (py_or (dict_get item (str ''common_name''))
                                (dict_get item (str ''CommonName'')))
                         (dict_get item (str ''name'')))
                  (dict_get item (str ''vernacular_name'')))
           (JStr (str ''Unknown Plant''))"

definition plant_scientific_name :: "pydict \<Rightarrow> json" where
  "plant_scientific_name item =
     py_or (py_or (py_or (dict_get item (str ''scientific_name''))
                         (dict_get item (str ''ScientificName'')))
                  (dict_get item (str ''latin_name'')))
           (dict_get item (str ''binomial''))"

definition plant_family :: "pydict \<Rightarrow> json" where
  "plant_family item =
     py_or (py_or (dict_get item (str ''family'')) (dict_get item (str ''Family'')))
           (dict_get item (str ''plant_family''))"

definition plant_edibility :: "pydict \<Rightarrow> json" where
  "plant_edibility item =
     py_or (py_or (dict_get item (str ''edibility'')) (dict_get item (str ''edible_parts'')))
           (dict_get item (str ''uses_edible''))"

definition plant_rating :: "pylib \<Rightarrow> pydict \<Rightarrow> int option" where
  "plant_rating lib item =
     (if has_key item (str ''edibility_rating'')
      then py_int lib (dict_get item (str ''edibility_rating'')) else None)"

definition plant_medicinal_uses :: "pydict \<Rightarrow> json" where
  "plant_medicinal_uses item =
     py_or (py_or (dict_get item (str ''medicinal_uses'')) (dict_get item (str ''medicinal'')))
           (dict_get item (str ''uses_medicinal''))"

definition plant_habitat :: "pydict \<Rightarrow> json" where
  "plant_habitat item =
     py_or (py_or (dict_get item (str ''habitat'')) (dict_get item (str ''native_range'')))
           (dict_get item (str ''distribution''))"

text \<open>The list \<open>description_parts\<close>, in the order in which the source appends to it.\<close>

definition plant_description_parts :: "pylib \<Rightarrow> pydict \<Rightarrow> pystr list" where
  "plant_description_parts lib item =
     opt_part lib ''**Scientific Name**: '' (plant_scientific_name item) @
     opt_part lib ''**Family**: '' (plant_family item) @
     field_parts lib item
       [str ''description'', str ''physical_characteristics'', str ''growth_habit'',
        str ''leaves'', str ''flowers'', str ''fruit''] @
     opt_part lib ''**Edibility**: '' (plant_edibility item) @
     opt_part lib ''**Medicinal Uses**: '' (plant_medicinal_uses item) @
     opt_part lib ''**Habitat**: '' (plant_habitat item)"

text \<open>\<^verbatim>\<open>PlantParser._parse_plant\<close>; \<open>min_content_length\<close> is the constant 100 of the constructor.\<close>

definition parse_plant :: "pylib \<Rightarrow> json \<Rightarrow> pystr \<Rightarrow> plant_entry option" where
  "parse_plant lib v src =
     (case v of
        JObj item \<Rightarrow>
          if len (join [NL, NL] (plant_description_parts lib item)) < 100 then None
          else Some \<lparr>common_name = py_str lib (plant_common_name item),
                      scientific_name = plant_scientific_name item,
                      family = plant_family item,
                      description = join [NL, NL] (plant_description_parts lib item),
                      edibility = plant_edibility item,
                      edibility_rating = plant_rating lib item,
                      medicinal_uses = plant_medicinal_uses item,
                      habitat = plant_habitat item,
                      plant_safety_level = plant_safety (plant_rating lib item),
                      plant_safety_notes = PLANT_SAFETY_WARNING,
                      plant_source_file = src,
                      plant_metadata = plant_meta item\<rparr>
      | _ \<Rightarrow> None)"

subsection \<open>Records used in the claims about the parsers\<close>

text \<open>The content that \<^verbatim>\<open>JSONParser._parse_item\<close> assembles before its length check.\<close>

definition data_content_of :: "pylib \<Rightarrow> json_parser \<Rightarrow> pydict \<Rightarrow> pystr" where
  "data_content_of lib self item = join [NL, NL] (fst (data_parts lib self item))"

text \<open>
  A record none of whose fields gives a content block: every field is a title field, a
  string of at most 20 characters, or neither a string nor a list of strings.
\<close>

definition short_fields_only :: "json_parser \<Rightarrow> pydict \<Rightarrow> bool" where
  "short_fields_only self item =
     list_all (\<lambda>(k, v). k \<in> set (title_fields self) \<or>
                 (case v of JStr s \<Rightarrow> len s \<le> 20 | JList xs \<Rightarrow> \<not> list_all is_str xs | _ \<Rightarrow> True))
       item"

text \<open>The record of the test \<^verbatim>\<open>test_toxic_plant_is_lethal\<close>.\<close>

definition toxic_plant :: pydict where
  "toxic_plant =
     [(str ''common_name'', JStr (str ''Deadly Nightshade'')),
      (str ''scientific_name'', JStr (str ''Atropa belladonna'')),
      (str ''description'', JStr (str ''An extremely toxic plant. All parts are poisonous.'')),
      (str ''edibility_rating'', JInt 1)]"

text \<open>A record with one field, a string of \<open>n\<close> letters x under the key "description".\<close>

definition one_field :: "nat \<Rightarrow> pydict" where
  "one_field n = [(str ''description'', JStr (replicate n 120))]"

text \<open>The record of the test \<^verbatim>\<open>test_skip_short_content\<close>.\<close>

definition short_record :: pydict where
  "short_record =
     [(str ''name'', JStr (str ''Short'')), (str ''description'', JStr (str ''Too short.''))]"

subsection \<open>Files, the relational store and the vector index\<close>

text \<open>
  A Python exception is a value of type \<open>error\<close>; a function that can raise returns
  \<open>error + 'a\<close>.
\<close>

datatype error =
    ValueError
  | IntegrityError
  | OperationalError
  | DatabaseError
  | RuntimeError
  | JSONDecodeError
  | TypeError
  | FileNotFoundError
  | SystemExit int

type_synonym bytes = "nat list"

text \<open>
  A file is absent, or has its bytes and the content that the library for its format
  reads from them (\<open>None\<close> when the library cannot read it and raises).
\<close>

datatype 'a disk_file = Absent | File bytes "'a option"

fun file_exists :: "'a disk_file \<Rightarrow> bool" where
  "file_exists Absent = False"
| "file_exists (File b v) = True"

text \<open>
  The SQLite database: the result of \<^verbatim>\<open>PRAGMA integrity_check\<close>, the table \<open>entries\<close> as
  the list of its rows with their rowids, and the full-text table \<open>entries_fts\<close> with the
  rowid, id, title, content and tags of each row. A table that does not exist is \<open>None\<close>.
\<close>

record database =
  integrity :: pystr
  entries :: "(int \<times> entry) list option"
  entries_fts :: "(int \<times> pystr \<times> pystr \<times> pystr \<times> pystr list) list option"

text \<open>What \<^verbatim>\<open>sqlite3.connect\<close> gives for a path with no file: a database without tables.\<close>

definition empty_database :: database where
  "empty_database = \<lparr>integrity = str ''ok'', entries = None, entries_fts = None\<rparr>"

text \<open>
  The hnswlib index: its dimension, its capacity, its items (external label and vector, in
  the order in which they were added) and the search parameter \<open>ef\<close>. An embedding is a
  list of reals.
\<close>

type_synonym vector = "real list"

record hnsw =
  dim :: nat
  max_elements :: nat
  items :: "(int \<times> vector) list"
  ef :: nat

text \<open>The output directory: the three artifacts.\<close>

record files =
  knowledge_db :: "database disk_file"
  vectors_idx :: "hnsw disk_file"
  manifest_json :: "json disk_file"

text \<open>
  The bytes that SQLite, hnswlib and \<^verbatim>\<open>json.dump\<close> write for a content are parameters of
  the model.
\<close>

record images =
  db_image :: "database \<Rightarrow> bytes"
  index_image :: "hnsw \<Rightarrow> bytes"
  json_image :: "json \<Rightarrow> bytes"

subsection \<open>Phase 1: the relational store\<close>

definition EMBEDDING_DIM :: nat where "EMBEDDING_DIM = 384"

text \<open>
  \<^verbatim>\<open>create_database\<close>: opens the database of the file (an empty one when there is no
  file), creates the two tables unless they exist, and commits. The triggers it creates
  are part of \<open>insert_entry\<close> below. A file that SQLite cannot read raises on the first
  statement.
\<close>

definition create_tables :: "database \<Rightarrow> database" where
  "create_tables db =
     db\<lparr>entries := Some (case entries db of None \<Rightarrow> [] | Some rows \<Rightarrow> rows),
        entries_fts := Some (case entries_fts db of None \<Rightarrow> [] | Some rows \<Rightarrow> rows)\<rparr>"

definition commit :: "images \<Rightarrow> database \<Rightarrow> files \<Rightarrow> files" where
  "commit img conn fs = fs\<lparr>knowledge_db := File (db_image img conn) (Some conn)\<rparr>"

definition create_database :: "images \<Rightarrow> files \<Rightarrow> files \<times> (error + database)" where
  "create_database img fs =
     (case knowledge_db fs of
        Absent \<Rightarrow> (commit img (create_tables empty_database) fs,
                   Inr (create_tables empty_database))
      | File b None \<Rightarrow> (fs, Inl DatabaseError)
      | File b (Some db) \<Rightarrow> (commit img (create_tables db) fs, Inr (create_tables db)))"

text \<open>
  The rowid that SQLite gives a new row of a table without an integer primary key: one
  more than the largest rowid in use, and 1 in an empty table. (The model has no upper
  end of the 64-bit rowids.)
\<close>

definition next_rowid :: "(int \<times> 'a) list \<Rightarrow> int" where
  "next_rowid rows = fold max (map fst rows) 0 + 1"

text \<open>
  \<^verbatim>\<open>insert_entry\<close>: the \<^verbatim>\<open>INSERT\<close> raises when the table is missing or when the primary
  key \<open>id\<close> is already there; otherwise the row gets the next rowid, the trigger
  \<open>entries_ai\<close> copies it into the full-text table under the same rowid, and the rowid is
  returned.
\<close>

definition insert_entry :: "database \<Rightarrow> entry \<Rightarrow> error + (database \<times> int)" where
  "insert_entry conn e =
     (case entries conn of
        None \<Rightarrow> Inl OperationalError
      | Some rows \<Rightarrow>
          if entry_id e \<in> set (map (entry_id \<circ> snd) rows) then Inl IntegrityError
          else (case entries_fts conn of
                  None \<Rightarrow> Inl OperationalError
                | Some fts \<Rightarrow>
                    Inr (conn\<lparr>entries := Some (rows @ [(next_rowid rows, e)]),
                              entries_fts := Some (fts @ [(next_rowid rows, entry_id e, title e,
                                                           content e, tags e)])\<rparr>,
                         next_rowid rows)))"

text \<open>
  The loops of \<^verbatim>\<open>build_index\<close> that insert every entry the parsers yield, in order; the
  first exception ends the build.
\<close>

fun insert_all :: "database \<Rightarrow> entry list \<Rightarrow> error + database" where
  "insert_all conn [] = Inr conn"
| "insert_all conn (e # es) =
     (case insert_entry conn e of
        Inl err \<Rightarrow> Inl err
      | Inr (conn', rowid) \<Rightarrow> insert_all conn' es)"

subsection \<open>Phase 2: the vector index\<close>

text \<open>\<^verbatim>\<open>SELECT rowid, content FROM entries ORDER BY rowid\<close>.\<close>

definition select_rowid_content :: "database \<Rightarrow> error + (int \<times> pystr) list" where
  "select_rowid_content conn =
     (case entries conn of
        None \<Rightarrow> Inl OperationalError
      | Some rows \<Rightarrow> Inr (sort_key fst (map (\<lambda>(rowid, e). (rowid, content e)) rows)))"

text \<open>\<^verbatim>\<open>rows[i:i + batch_size]\<close> for \<open>i\<close> in \<^verbatim>\<open>range(0, len(rows), batch_size)\<close>.\<close>

function batches :: "nat \<Rightarrow> 'a list \<Rightarrow> 'a list list" where
  "batches n xs = (if n = 0 \<or> xs = [] then [] else take n xs # batches n (drop n xs))"
  by pat_completeness auto
termination
  by (relation "measure (\<lambda>(n, xs). length xs)") auto

declare batches.simps [simp del]

text \<open>
  hnswlib, by its documented behaviour. \<open>add_point\<close> adds one item: a vector of the wrong
  dimension raises, a label already in the index gets the new vector, and a new label
  raises when the index is full. \<open>add_items\<close> raises when the numbers of vectors and of
  labels differ.
\<close>

definition init_index :: "nat \<Rightarrow> nat \<Rightarrow> hnsw" where
  "init_index d n = \<lparr>dim = d, max_elements = n, items = [], ef = 10\<rparr>"

definition add_point :: "hnsw \<Rightarrow> int \<times> vector \<Rightarrow> error + hnsw" where
  "add_point index p =
     (if length (snd p) \<noteq> dim index then Inl RuntimeError
      else if fst p \<in> set (map fst (items index))
      then Inr (index\<lparr>items := AList.update (fst p) (snd p) (items index)\<rparr>)
      else if max_elements index \<le> length (items index) then Inl RuntimeError
      else Inr (index\<lparr>items := items index @ [p]\<rparr>))"

fun add_points :: "hnsw \<Rightarrow> (int \<times> vector) list \<Rightarrow> error + hnsw" where
  "add_points index [] = Inr index"
| "add_points index (p # ps) =
     (case add_point index p of Inl err \<Rightarrow> Inl err | Inr index' \<Rightarrow> add_points index' ps)"

definition add_items :: "hnsw \<Rightarrow> vector list \<Rightarrow> int list \<Rightarrow> error + hnsw" where
  "add_items index vectors ids =
     (if length vectors \<noteq> length ids then Inl RuntimeError
      else add_points index (zip ids vectors))"

definition get_current_count :: "hnsw \<Rightarrow> nat" where
  "get_current_count index = length (items index)"

text \<open>
  \<^verbatim>\<open>build_vector_index\<close>. The embedding model is the parameter \<open>encode\<close>, which maps the
  texts of one batch to their vectors.
\<close>

definition build_vector_index ::
    "images \<Rightarrow> database \<Rightarrow> (pystr list \<Rightarrow> vector list) \<Rightarrow> files \<Rightarrow> files \<times> (error + hnsw)" where
  "build_vector_index img conn encode fs =
     (case select_rowid_content conn of
        Inl err \<Rightarrow> (fs, Inl err)
      | Inr rows \<Rightarrow>
          if rows = [] then (fs, Inl ValueError)
          else
            (let all_embeddings = concat (map (\<lambda>batch. encode (map snd batch)) (batches 100 rows));
                 all_ids = concat (map (map fst) (batches 100 rows))
             in case add_items (init_index EMBEDDING_DIM (length all_ids)) all_embeddings all_ids of
                  Inl err \<Rightarrow> (fs, Inl err)
                | Inr index \<Rightarrow>
                    (fs\<lparr>vectors_idx := File (index_image img (index\<lparr>ef := 50\<rparr>))
                                             (Some (index\<lparr>ef := 50\<rparr>))\<rparr>,
                     Inr (index\<lparr>ef := 50\<rparr>))))"

text \<open>
  \<^verbatim>\<open>build_index\<close>, from the removal of the old artifacts on. The argument \<open>es\<close> is the
  sequence of entries that the parsers yield for the source tree, in the order of the
  directory walk. The result is the number of entries inserted. An exception leaves the
  files as they were when it was raised; the inserts of phase 1 reach the file with the
  commit after the loops.
\<close>

definition build_index ::
    "images \<Rightarrow> (pystr list \<Rightarrow> vector list) \<Rightarrow> entry list \<Rightarrow> files \<Rightarrow> files \<times> (error + nat)" where
  "build_index img encode es fs =
     (case create_database img (fs\<lparr>knowledge_db := Absent, vectors_idx := Absent\<rparr>) of
        (fs1, Inl err) \<Rightarrow> (fs1, Inl err)
      | (fs1, Inr conn) \<Rightarrow>
          (case insert_all conn es of
             Inl err \<Rightarrow> (fs1, Inl err)
           | Inr conn' \<Rightarrow>
               (case build_vector_index img conn' encode (commit img conn' fs1) of
                  (fs2, Inl err) \<Rightarrow> (fs2, Inl err)
                | (fs2, Inr index) \<Rightarrow> (fs2, Inr (length es)))))"

text \<open>The rowids of the relational store and the labels of the vector index on disk.\<close>

definition db_rows :: "files \<Rightarrow> (int \<times> entry) list" where
  "db_rows fs =
     (case knowledge_db fs of
        File b (Some db) \<Rightarrow> (case entries db of Some rows \<Rightarrow> rows | None \<Rightarrow> [])
      | _ \<Rightarrow> [])"

definition index_items :: "files \<Rightarrow> (int \<times> vector) list" where
  "index_items fs = (case vectors_idx fs of File b (Some index) \<Rightarrow> items index | _ \<Rightarrow> [])"

subsection \<open>A concrete build\<close>

text \<open>
  An empty output directory, writers whose bytes are not looked at, an embedding model
  that maps every text to the zero vector, and an entry as \<^verbatim>\<open>parse_pdf\<close> builds it.
\<close>

definition no_files :: files where
  "no_files = \<lparr>knowledge_db = Absent, vectors_idx = Absent, manifest_json = Absent\<rparr>"

definition null_images :: images where
  "null_images = \<lparr>db_image = (\<lambda>db. []), index_image = (\<lambda>index. []), json_image = (\<lambda>j. [])\<rparr>"

definition zero_encode :: "pystr list \<Rightarrow> vector list" where
  "zero_encode ts = map (\<lambda>t. replicate EMBEDDING_DIM 0) ts"

definition demo_entry :: "pystr \<Rightarrow> pystr \<Rightarrow> entry" where
  "demo_entry uid body =
     \<lparr>entry_id = uid, title = str ''Untitled Entry'', content = body,
      category = str ''survival'', subcategory = None, safety_level = str ''caution'',
      safety_notes = None, source_file = Some (str ''guide.pdf''), source_page = Some 1,
      source_url = None, license = Some (str ''public_domain''),
      tags = [str ''survival'', str ''guide''], created_at = str ''2024-01-01T00:00:00+00:00''\<rparr>"

subsection \<open>The manifest generator\<close>

text \<open>
  \<^verbatim>\<open>sqlite3.connect(db_path)\<close> followed by a statement: a path with no file gets an empty
  database file; a file that SQLite cannot read gives no database.
\<close>

definition connect :: "files \<Rightarrow> files \<times> database option" where
  "connect fs =
     (case knowledge_db fs of
        Absent \<Rightarrow> (fs\<lparr>knowledge_db := File [] (Some empty_database)\<rparr>, Some empty_database)
      | File b v \<Rightarrow> (fs, v))"

text \<open>\<^verbatim>\<open>SELECT COUNT(*) FROM entries\<close>.\<close>

definition count_entries :: "database option \<Rightarrow> error + int" where
  "count_entries conn =
     (case conn of
        None \<Rightarrow> Inl DatabaseError
      | Some db \<Rightarrow> (case entries db of None \<Rightarrow> Inl OperationalError | Some rows \<Rightarrow> Inr (len rows)))"

text \<open>The counts per category of a table, as the manifest holds them.\<close>

definition counts_of :: "(int \<times> entry) list \<Rightarrow> pydict" where
  "counts_of rows =
     map (\<lambda>c. (c, JInt (len (filter (\<lambda>r. category (snd r) = c) rows))))
         (sort (remdups (map (category \<circ> snd) rows)))"

text \<open>
  \<^verbatim>\<open>SELECT category, COUNT(*) FROM entries GROUP BY category ORDER BY category\<close>, as the
  dictionary that \<^verbatim>\<open>get_category_counts\<close> makes of it.
\<close>

definition category_counts :: "database option \<Rightarrow> error + pydict" where
  "category_counts conn =
     (case conn of
        None \<Rightarrow> Inl DatabaseError
      | Some db \<Rightarrow>
          (case entries db of
             None \<Rightarrow> Inl OperationalError
           | Some rows \<Rightarrow>
               Inr (counts_of rows)))"

text \<open>
  \<^verbatim>\<open>calculate_file_hash\<close>: the file is read in pieces of 8192 bytes until a read gives
  nothing, and each piece is fed to the hash object. The parameter \<open>H\<close> is SHA-256 with
  its hexadecimal digest: the digest of a hash object is \<open>H\<close> of all the bytes fed to it.
\<close>

function hash_chunks :: "(bytes \<Rightarrow> pystr) \<Rightarrow> bytes \<Rightarrow> bytes \<Rightarrow> pystr" where
  "hash_chunks H fed rest =
     (if take 8192 rest = [] then H fed
      else hash_chunks H (fed @ take 8192 rest) (drop 8192 rest))"
  by pat_completeness auto
termination
  by (relation "measure (\<lambda>(H, fed, rest). length rest)") auto

declare hash_chunks.simps [simp del]

definition calculate_file_hash :: "(bytes \<Rightarrow> pystr) \<Rightarrow> 'a disk_file \<Rightarrow> error + pystr" where
  "calculate_file_hash H f =
     (case f of Absent \<Rightarrow> Inl FileNotFoundError | File b v \<Rightarrow> Inr (hash_chunks H [] b))"

text \<open>\<^verbatim>\<open>path.stat().st_size\<close>.\<close>

definition st_size :: "'a disk_file \<Rightarrow> error + int" where
  "st_size f = (case f of Absent \<Rightarrow> Inl FileNotFoundError | File b v \<Rightarrow> Inr (len b))"

text \<open>The entry of the manifest's \<open>files\<close> for one artifact.\<close>

definition file_record :: "(bytes \<Rightarrow> pystr) \<Rightarrow> 'a disk_file \<Rightarrow> error + json" where
  "file_record H f =
     (case st_size f of
        Inl err \<Rightarrow> Inl err
      | Inr sz \<Rightarrow>
          (case calculate_file_hash H f of
             Inl err \<Rightarrow> Inl err
           | Inr digest \<Rightarrow> Inr (JObj [(str ''size_bytes'', JInt sz), (str ''sha256'', JStr digest)])))"

text \<open>The dictionary \<open>manifest\<close> that \<^verbatim>\<open>generate_manifest\<close> builds and writes.\<close>

definition manifest_doc ::
    "pystr \<Rightarrow> pystr \<Rightarrow> pystr \<Rightarrow> pystr \<Rightarrow> int \<Rightarrow> pydict \<Rightarrow> json \<Rightarrow> json \<Rightarrow> json" where
  "manifest_doc version now source_hash model total_entries categories db_rec vec_rec =
     JObj [(str ''version'', JStr version),
           (str ''build_timestamp'', JStr now),
           (str ''source_hash'', JStr source_hash),
           (str ''embedding_model'', JStr model),
           (str ''embedding_dimensions'', JInt 384),
           (str ''total_entries'', JInt total_entries),
           (str ''categories'', JObj categories),
           (str ''files'', JObj [(str ''knowledge.db'', db_rec), (str ''vectors.idx'', vec_rec)]),
           (str ''schema_version'', JStr (str ''1.0'')),
           (str ''hnswlib_space'', JStr (str ''cosine''))]"

text \<open>
  \<^verbatim>\<open>generate_manifest\<close>. The clock reading \<open>now\<close> is an argument. The two database reads
  open the file that is known to exist, so they change no file.
\<close>

definition generate_manifest ::
    "images \<Rightarrow> (bytes \<Rightarrow> pystr) \<Rightarrow> pystr \<Rightarrow> pystr \<Rightarrow> pystr \<Rightarrow> pystr \<Rightarrow> files
       \<Rightarrow> files \<times> (error + json)" where
  "generate_manifest img H now version source_hash model fs =
     (if \<not> file_exists (knowledge_db fs) then (fs, Inl (SystemExit 1))
      else if \<not> file_exists (vectors_idx fs) then (fs, Inl (SystemExit 1))
      else
        (case count_entries (snd (connect fs)) of
           Inl err \<Rightarrow> (fs, Inl err)
         | Inr total_entries \<Rightarrow>
             (case category_counts (snd (connect fs)) of
                Inl err \<Rightarrow> (fs, Inl err)
              | Inr cats \<Rightarrow>
                  (case file_record H (knowledge_db fs) of
                     Inl err \<Rightarrow> (fs, Inl err)
                   | Inr db_rec \<Rightarrow>
                       (case file_record H (vectors_idx fs) of
                          Inl err \<Rightarrow> (fs, Inl err)
                        | Inr vec_rec \<Rightarrow>
                            (fs\<lparr>manifest_json :=
                                  File (json_image img
                                          (manifest_doc version now source_hash model total_entries
                                             cats db_rec vec_rec))
                                       (Some (manifest_doc version now source_hash model
                                                total_entries cats db_rec vec_rec))\<rparr>,
                             Inr (manifest_doc version now source_hash model total_entries cats
                                    db_rec vec_rec)))))))"

text \<open>\<^verbatim>\<open>m[k]\<close> on a JSON value, \<open>None\<close> where it raises.\<close>

definition json_get :: "json \<Rightarrow> pystr \<Rightarrow> json option" where
  "json_get m k = (case m of JObj d \<Rightarrow> map_of d k | _ \<Rightarrow> None)"

text \<open>\<^verbatim>\<open>manifest["files"][name][field]\<close>.\<close>

definition manifest_file_field :: "json \<Rightarrow> pystr \<Rightarrow> pystr \<Rightarrow> json option" where
  "manifest_file_field m name field =
     (case json_get m (str ''files'') of
        None \<Rightarrow> None
      | Some fl \<Rightarrow> (case json_get fl name of None \<Rightarrow> None | Some r \<Rightarrow> json_get r field))"

subsection \<open>The verifier\<close>

definition TEST_QUERIES :: "(pystr \<times> pystr) list" where
  "TEST_QUERIES =
     [(str ''how to start a fire without matches'', str ''survival''),
      (str ''reading a topographic map'', str ''navigation''),
      (str ''treating a bleeding wound'', str ''first_aid''),
      (str ''tying a bowline knot'', str ''knots''),
      (str ''identifying cloud types'', str ''weather'')]"

text \<open>
  The messages of the checks, without their wording: each constructor is one of the
  message strings of \<^verbatim>\<open>verify_index.py\<close>, with the values it interpolates.
\<close>

datatype message =
    IntegrityCheckFailed pystr
  | TableNotFound
  | FtsTableNotFound
  | NoEntries
  | DatabaseOK int
  | DatabaseFailure error
  | VectorIndexEmpty
  | VectorIndexOK nat
  | VectorIndexFailure error
  | ManifestNotFound
  | MissingField pystr
  | EntryCountMismatch json int
  | ManifestOK json
  | ManifestFailure error

text \<open>
  The lines of the search check: a match, a warning for a category other than the
  expected one, and the two failures.
\<close>

datatype search_line =
    Match pystr pystr
  | Warning pystr pystr pystr
  | NoResults pystr
  | EntryNotFound pystr int
  | SearchFailure error

text \<open>\<^verbatim>\<open>verify_database\<close>.\<close>

definition verify_database :: "files \<Rightarrow> files \<times> bool \<times> message" where
  "verify_database fs =
     (case connect fs of
        (fs', None) \<Rightarrow> (fs', False, DatabaseFailure DatabaseError)
      | (fs', Some db) \<Rightarrow>
          if integrity db \<noteq> str ''ok'' then (fs', False, IntegrityCheckFailed (integrity db))
          else (case entries db of
                  None \<Rightarrow> (fs', False, TableNotFound)
                | Some rows \<Rightarrow>
                    (case entries_fts db of
                       None \<Rightarrow> (fs', False, FtsTableNotFound)
                     | Some fts \<Rightarrow>
                         if len rows = 0 then (fs', False, NoEntries)
                         else (fs', True, DatabaseOK (len rows)))))"

text \<open>\<^verbatim>\<open>verify_vector_index\<close>: loading a file that is absent or not an index raises.\<close>

definition verify_vector_index :: "files \<Rightarrow> bool \<times> message" where
  "verify_vector_index fs =
     (case vectors_idx fs of
        File b (Some index) \<Rightarrow>
          if get_current_count index = 0 then (False, VectorIndexEmpty)
          else (True, VectorIndexOK (get_current_count index))
      | _ \<Rightarrow> (False, VectorIndexFailure RuntimeError))"

text \<open>
  \<^verbatim>\<open>manifest["total_entries"] != actual_count\<close>: Python's comparison of a JSON value with an
  integer.
\<close>

definition eq_int :: "json \<Rightarrow> int \<Rightarrow> bool" where
  "eq_int v c =
     (case v of
        JInt n \<Rightarrow> n = c
      | JFloat r \<Rightarrow> r = of_int c
      | JBool b \<Rightarrow> (if b then 1 else 0) = c
      | _ \<Rightarrow> False)"

text \<open>The loop over the required fields: the first one missing.\<close>

fun first_missing :: "pydict \<Rightarrow> pystr list \<Rightarrow> pystr option" where
  "first_missing m [] = None"
| "first_missing m (field # flds) =
     (if has_key m field then first_missing m flds else Some field)"

text \<open>
  \<^verbatim>\<open>verify_manifest\<close>. A manifest that is not a JSON object fails, with a missing field or
  with an exception, as Python's \<^verbatim>\<open>in\<close> and indexing decide; the model gives it the
  exception. The file hashes that the manifest records are not read.
\<close>

definition verify_manifest :: "files \<Rightarrow> files \<times> bool \<times> message" where
  "verify_manifest fs =
     (case manifest_json fs of
        Absent \<Rightarrow> (fs, False, ManifestNotFound)
      | File b None \<Rightarrow> (fs, False, ManifestFailure JSONDecodeError)
      | File b (Some (JObj m)) \<Rightarrow>
          (case first_missing m [str ''version'', str ''total_entries'', str ''categories'',
                                 str ''files''] of
             Some field \<Rightarrow> (fs, False, MissingField field)
           | None \<Rightarrow>
               (case count_entries (snd (connect fs)) of
                  Inl err \<Rightarrow> (fst (connect fs), False, ManifestFailure err)
                | Inr actual_count \<Rightarrow>
                    if \<not> eq_int (dict_get m (str ''total_entries'')) actual_count
                    then (fst (connect fs), False,
                          EntryCountMismatch (dict_get m (str ''total_entries'')) actual_count)
                    else (fst (connect fs), True, ManifestOK (dict_get m (str ''version'')))))
      | File b (Some other) \<Rightarrow> (fs, False, ManifestFailure TypeError))"

text \<open>
  The embedding model and the nearest-neighbour search of hnswlib are parameters:
  \<open>embed_query\<close> is \<^verbatim>\<open>model.encode(query)\<close>, and \<open>knn_query\<close> is
  \<^verbatim>\<open>index.knn_query([embedding], k=1)\<close>, the array of labels it returns or the exception
  it raises.
\<close>

record searcher =
  embed_query :: "pystr \<Rightarrow> vector"
  knn_query :: "hnsw \<Rightarrow> vector \<Rightarrow> error + int list list"

text \<open>\<^verbatim>\<open>SELECT category FROM entries WHERE rowid = ?\<close>, with \<^verbatim>\<open>fetchone\<close>.\<close>

definition select_category :: "database option \<Rightarrow> int \<Rightarrow> error + pystr option" where
  "select_category conn rowid =
     (case conn of
        None \<Rightarrow> Inl DatabaseError
      | Some db \<Rightarrow>
          (case entries db of
             None \<Rightarrow> Inl OperationalError
           | Some rows \<Rightarrow> Inr (map_option category (map_of rows rowid))))"

text \<open>
  The loop of \<^verbatim>\<open>verify_search\<close> over the queries. The result is the pair of
  \<open>all_passed\<close> and the lines, or the exception that ends the loop. A category other
  than the expected one adds a warning line and leaves \<open>all_passed\<close> as it is.
\<close>

fun search_loop ::
    "searcher \<Rightarrow> database option \<Rightarrow> hnsw \<Rightarrow> (pystr \<times> pystr) list \<Rightarrow> error + (bool \<times> search_line list)"
  where
  "search_loop env conn index [] = Inr (True, [])"
| "search_loop env conn index ((query, expected_category) # queries) =
     (case knn_query env index (embed_query env query) of
        Inl err \<Rightarrow> Inl err
      | Inr labels \<Rightarrow>
          if labels = [] \<or> hd labels = []
          then (case search_loop env conn index queries of
                  Inl err \<Rightarrow> Inl err
                | Inr (all_passed, results) \<Rightarrow> Inr (False, NoResults query # results))
          else
            (case select_category conn (hd (hd labels)) of
               Inl err \<Rightarrow> Inl err
             | Inr None \<Rightarrow>
                 (case search_loop env conn index queries of
                    Inl err \<Rightarrow> Inl err
                  | Inr (all_passed, results) \<Rightarrow>
                      Inr (False, EntryNotFound query (hd (hd labels)) # results))
             | Inr (Some actual) \<Rightarrow>
                 (case search_loop env conn index queries of
                    Inl err \<Rightarrow> Inl err
                  | Inr (all_passed, results) \<Rightarrow>
                      Inr (all_passed,
                           (if actual = expected_category then Match query actual
                            else Warning query actual expected_category) # results))))"

text \<open>\<^verbatim>\<open>verify_search\<close>: every exception gives a failed check with one line.\<close>

definition verify_search :: "searcher \<Rightarrow> files \<Rightarrow> files \<times> bool \<times> search_line list" where
  "verify_search env fs =
     (case vectors_idx fs of
        File b (Some index) \<Rightarrow>
          (case search_loop env (snd (connect fs)) index TEST_QUERIES of
             Inl err \<Rightarrow> (fst (connect fs), False, [SearchFailure err])
           | Inr (all_passed, results) \<Rightarrow> (fst (connect fs), all_passed, results))
      | _ \<Rightarrow> (fst (connect fs), False, [SearchFailure RuntimeError]))"

text \<open>\<^verbatim>\<open>verify_index\<close>: the four checks in order, and the conjunction of their results.\<close>

definition verify_index :: "searcher \<Rightarrow> files \<Rightarrow> files \<times> bool" where
  "verify_index env fs =
     (case verify_database fs of
        (fs1, p1, m1) \<Rightarrow>
          (case verify_vector_index fs1 of
             (p2, m2) \<Rightarrow>
               (case verify_manifest fs1 of
                  (fs3, p3, m3) \<Rightarrow>
                    (case verify_search env fs3 of
                       (fs4, p4, results) \<Rightarrow> (fs4, p1 \<and> p2 \<and> p3 \<and> p4)))))"

text \<open>The exit status of the verify command for an existing directory.\<close>

definition verify_exit_code :: "searcher \<Rightarrow> files \<Rightarrow> int" where
  "verify_exit_code env fs = (if snd (verify_index env fs) then 0 else 1)"

text \<open>
  The structural conditions that the verifier checks: a readable database that passes
  the integrity check and has both tables and at least one row; a readable vector index
  with at least one item; a manifest that is an object with the four required fields and
  whose entry count equals the number of rows; and for every sample query a nearest
  neighbour whose label is the rowid of a row. The expected categories are not part of
  them.
\<close>

definition query_resolves :: "searcher \<Rightarrow> (int \<times> entry) list \<Rightarrow> hnsw \<Rightarrow> pystr \<Rightarrow> bool" where
  "query_resolves env rows index query =
     (case knn_query env index (embed_query env query) of
        Inl err \<Rightarrow> False
      | Inr labels \<Rightarrow> labels \<noteq> [] \<and> hd labels \<noteq> [] \<and> map_of rows (hd (hd labels)) \<noteq> None)"

definition structurally_sound :: "searcher \<Rightarrow> files \<Rightarrow> bool" where
  "structurally_sound env fs =
     (case knowledge_db fs of
        File b (Some db) \<Rightarrow>
          integrity db = str ''ok'' \<and> entries_fts db \<noteq> None \<and>
          (case entries db of
             None \<Rightarrow> False
           | Some rows \<Rightarrow>
               rows \<noteq> [] \<and>
               (case vectors_idx fs of
                  File b' (Some index) \<Rightarrow>
                    items index \<noteq> [] \<and>
                    (case manifest_json fs of
                       File b'' (Some (JObj m)) \<Rightarrow>
                         list_all (has_key m) [str ''version'', str ''total_entries'',
                                               str ''categories'', str ''files''] \<and>
                         eq_int (dict_get m (str ''total_entries'')) (len rows) \<and>
                         list_all (query_resolves env rows index) (map fst TEST_QUERIES)
                     | _ \<Rightarrow> False)
                | _ \<Rightarrow> False))
      | _ \<Rightarrow> False)"

text \<open>The result \<open>all_passed\<close> of the search loop, false when the loop raises.\<close>

definition search_passed :: "error + (bool \<times> search_line list) \<Rightarrow> bool" where
  "search_passed r = (case r of Inl err \<Rightarrow> False | Inr (ok, results) \<Rightarrow> ok)"

subsection \<open>A concrete output directory\<close>

text \<open>
  A database with one row, a vector index with one item under the label 1, and the two
  files that hold them. \<open>toy_digest\<close> stands for SHA-256 where a manifest is computed
  for them, and \<open>demo_searcher\<close> always finds the item with label 1.
\<close>

definition demo_db :: database where
  "demo_db =
     \<lparr>integrity = str ''ok'',
      entries = Some [(1, demo_entry (str ''0a1b2c3d'') (str ''first''))],
      entries_fts = Some [(1, str ''0a1b2c3d'', str ''Untitled Entry'', str ''first'',
                           [str ''survival'', str ''guide''])]\<rparr>"

definition demo_index :: hnsw where
  "demo_index =
     \<lparr>dim = EMBEDDING_DIM, max_elements = 1, items = [(1, replicate EMBEDDING_DIM 0)], ef = 50\<rparr>"

definition demo_files :: files where
  "demo_files =
     \<lparr>knowledge_db = File [83, 81, 76] (Some demo_db),
      vectors_idx = File [1, 0] (Some demo_index),
      manifest_json = Absent\<rparr>"

definition toy_digest :: "bytes \<Rightarrow> pystr" where
  "toy_digest b = str ''digest of '' @ b"

definition demo_searcher :: searcher where
  "demo_searcher =
     \<lparr>embed_query = (\<lambda>query. replicate EMBEDDING_DIM 0), knn_query = (\<lambda>index v. Inr [[1]])\<rparr>"

text \<open>
  The same directory with a manifest whose entry for the database records the digest
  "0000", which is not the digest of the file.
\<close>

definition tampered_files :: files where
  "tampered_files =
     demo_files\<lparr>manifest_json :=
       File [] (Some (manifest_doc (str ''1.0.0'') (str ''2024-01-01T00:00:00+00:00'')
                        (str ''unknown'') (str ''all-MiniLM-L6-v2'') 1
                        [(str ''survival'', JInt 1)]
                        (JObj [(str ''size_bytes'', JInt 3), (str ''sha256'', JStr (str ''0000''))])
                        (JObj [(str ''size_bytes'', JInt 2),
                               (str ''sha256'', JStr (toy_digest [1, 0]))])))\<rparr>"

text \<open>The directory with the manifest that \<^verbatim>\<open>generate_manifest\<close> computes for it.\<close>

definition sound_files :: files where
  "sound_files =
     demo_files\<lparr>manifest_json :=
       File [] (Some (manifest_doc (str ''1.0.0'') (str ''2024-01-01T00:00:00+00:00'')
                        (str ''unknown'') (str ''all-MiniLM-L6-v2'') 1
                        [(str ''survival'', JInt 1)]
                        (JObj [(str ''size_bytes'', JInt 3),
                               (str ''sha256'', JStr (toy_digest [83, 81, 76]))])
                        (JObj [(str ''size_bytes'', JInt 2),
                               (str ''sha256'', JStr (toy_digest [1, 0]))])))\<rparr>"

section \<open>Properties of cleaning and chunking\<close>

subsection \<open>Stripping\<close>

lemma no_adj_Cons: "no_adj p (x # ys) = ((ys \<noteq> [] \<longrightarrow> \<not> (p x \<and> p (hd ys))) \<and> no_adj p ys)"
  by (cases ys) auto

lemma no_adj_prefix: "no_adj p (xs @ ys) \<Longrightarrow> no_adj p xs"
  by (induction p xs rule: no_adj.induct) auto

lemma no_adj_suffix: "no_adj p (xs @ ys) \<Longrightarrow> no_adj p ys"
  by (induction xs) (auto simp: no_adj_Cons)

lemma no_nl3_prefix: "no_nl3 (xs @ ys) \<Longrightarrow> no_nl3 xs"
  by (induction xs rule: no_nl3.induct) auto

lemma no_nl3_tl: "no_nl3 (x # xs) \<Longrightarrow> no_nl3 xs"
  by (cases xs rule: no_nl3.cases) auto

lemma no_nl3_suffix: "no_nl3 (xs @ ys) \<Longrightarrow> no_nl3 ys"
  by (induction xs) (auto dest: no_nl3_tl)

lemma strip_decomp: "\<exists>a b. s = a @ strip s @ b"
proof -
  have 1: "s = takeWhile is_space s @ dropWhile is_space s" by simp
  let ?d = "dropWhile is_space s"
  have "rev ?d = takeWhile is_space (rev ?d) @ dropWhile is_space (rev ?d)" by simp
  then have "?d = rev (dropWhile is_space (rev ?d)) @ rev (takeWhile is_space (rev ?d))"
    by (metis rev_append rev_rev_ident)
  then have "?d = strip s @ rev (takeWhile is_space (rev ?d))" by (simp add: strip_def)
  with 1 show ?thesis by metis
qed

lemma strip_set: "set (strip s) \<subseteq> set s"
  using strip_decomp[of s] by (metis Un_upper1 Un_upper2 set_append subset_trans)

lemma dropWhile_fix: "xs = [] \<or> \<not> P (hd xs) \<Longrightarrow> dropWhile P xs = xs"
  by (cases xs) auto

lemma last_dropWhile_ne: "dropWhile P xs \<noteq> [] \<Longrightarrow> last (dropWhile P xs) = last xs"
  by (induction xs) (auto split: if_splits)

lemma strip_ends: "strip s = [] \<or> (\<not> is_space (hd (strip s)) \<and> \<not> is_space (last (strip s)))"
proof (cases "strip s = []")
  case True then show ?thesis by simp
next
  case False
  let ?d = "dropWhile is_space s"
  let ?e = "dropWhile is_space (rev ?d)"
  have e: "?e \<noteq> []" using False by (simp add: strip_def)
  have d: "?d \<noteq> []"
  proof
    assume a: "?d = []"
    have "?e = dropWhile is_space (rev [])" by (simp only: a)
    with e show False by simp
  qed
  have 1: "\<not> is_space (hd ?e)" using e by (rule hd_dropWhile)
  have "last ?e = last (rev ?d)" using e by (rule last_dropWhile_ne)
  then have "last ?e = hd ?d" using d by (simp add: last_rev)
  moreover have "\<not> is_space (hd ?d)" using d by (rule hd_dropWhile)
  ultimately have 2: "\<not> is_space (last ?e)" by simp
  have "hd (strip s) = last ?e" "last (strip s) = hd ?e"
    using e by (simp_all add: strip_def hd_rev last_rev)
  with 1 2 show ?thesis by simp
qed

lemma strip_fix: "s = [] \<or> (\<not> is_space (hd s) \<and> \<not> is_space (last s)) \<Longrightarrow> strip s = s"
  by (cases "s = []") (auto simp: strip_def dropWhile_fix hd_rev)

lemma strip_idem: "strip (strip s) = strip s"
  using strip_ends strip_fix by blast

lemma NL_neq_SP: "NL \<noteq> SP" "NL \<noteq> TAB" "CR \<noteq> NL" "CR \<noteq> SP" "CR \<noteq> TAB"
  by (simp_all add: NL_def SP_def TAB_def CR_def)

lemma is_space_consts: "is_space SP" "is_space NL" "is_space TAB" "is_space CR"
  by (simp_all add: is_space_def NL_def SP_def TAB_def CR_def)

subsection \<open>Collapsing runs\<close>

lemma sub_runs_p_is_SP: "c \<in> set (sub_runs p xs) \<Longrightarrow> p c \<Longrightarrow> c = SP"
proof (induction p xs rule: sub_runs.induct)
  case (1 p) then show ?case by simp
next
  case (2 p c cs) then show ?case by (auto split: if_splits)
qed

lemma sub_runs_hd: "xs \<noteq> [] \<Longrightarrow> \<not> p (hd xs) \<Longrightarrow> hd (sub_runs p xs) = hd xs"
  by (cases xs) auto

lemma sub_runs_no_adj: "no_adj p (sub_runs p xs)"
proof (induction p xs rule: sub_runs.induct)
  case (1 p) then show ?case by simp
next
  case (2 p c cs)
  show ?case
  proof (cases "p c")
    case True
    have "dropWhile p cs \<noteq> [] \<Longrightarrow> \<not> p (hd (sub_runs p (dropWhile p cs)))"
      using sub_runs_hd[of "dropWhile p cs" p] hd_dropWhile[of p cs] by metis
    moreover have "sub_runs p (dropWhile p cs) \<noteq> [] \<Longrightarrow> dropWhile p cs \<noteq> []"
      by (metis sub_runs.simps(1))
    ultimately show ?thesis using True 2 by (auto simp: no_adj_Cons)
  next
    case False
    then show ?thesis using 2 by (auto simp: no_adj_Cons)
  qed
qed

lemma sub_runs_fix: "\<forall>c\<in>set xs. p c \<longrightarrow> c = SP \<Longrightarrow> no_adj p xs \<Longrightarrow> sub_runs p xs = xs"
proof (induction p xs rule: sub_runs.induct)
  case (1 p) then show ?case by simp
next
  case (2 p c cs)
  show ?case
  proof (cases "p c")
    case True
    then have "cs = [] \<or> \<not> p (hd cs)" using 2(4) by (auto simp: no_adj_Cons)
    then have d: "dropWhile p cs = cs" by (rule dropWhile_fix)
    have "no_adj p cs" using 2(4) by (simp add: no_adj_Cons)
    then have "sub_runs p cs = cs" using 2(1)[OF True] 2(3) d by simp
    then show ?thesis using True 2(3) d by simp
  next
    case False
    have "no_adj p cs" using 2(4) by (simp add: no_adj_Cons)
    then show ?thesis using False 2(2)[OF False] 2(3) by simp
  qed
qed

subsection \<open>Line endings\<close>

lemma sub_cr_no_CR: "CR \<notin> set (sub_cr xs)"
  by (induction xs rule: sub_cr.induct) (auto simp: NL_neq_SP)

lemma sub_cr_set: "set (sub_cr xs) \<subseteq> insert NL (set xs)"
  by (induction xs rule: sub_cr.induct) auto

lemma sub_cr_fix: "CR \<notin> set xs \<Longrightarrow> sub_cr xs = xs"
  by (induction xs rule: sub_cr.induct) auto

lemma sub_cr_hd: "\<not> p CR \<Longrightarrow> \<not> p NL \<Longrightarrow> xs \<noteq> [] \<Longrightarrow> sub_cr xs \<noteq> [] \<and> p (hd (sub_cr xs)) = p (hd xs)"
  by (induction xs rule: sub_cr.induct) auto

lemma sub_cr_no_adj: "\<not> p CR \<Longrightarrow> \<not> p NL \<Longrightarrow> no_adj p xs \<Longrightarrow> no_adj p (sub_cr xs)"
proof (induction xs rule: sub_cr.induct)
  case 1 then show ?case by simp
next
  case (2 c) then show ?case by simp
next
  case (3 c d cs)
  have tl: "no_adj p (d # cs)" "no_adj p cs"
    using 3(6) by (simp_all add: no_adj_Cons)
  have hd1: "p (hd (sub_cr (d # cs))) = p d" "sub_cr (d # cs) \<noteq> []"
    using sub_cr_hd[OF 3(4) 3(5), of "d # cs"] by simp_all
  show ?case
  proof (cases "c = CR")
    case True
    then show ?thesis using 3 tl by (auto simp: no_adj_Cons)
  next
    case False
    then show ?thesis using 3 tl hd1 by (auto simp: no_adj_Cons)
  qed
qed

subsection \<open>Newline runs\<close>

lemma sub_newlines_set: "set (sub_newlines xs) \<subseteq> set xs"
proof (induction xs rule: sub_newlines.induct)
  case 1 then show ?case by simp
next
  case (2 c cs)
  show ?case
  proof (cases "c = NL")
    case True
    have "set (sub_newlines (dropWhile (\<lambda>d. d = NL) cs)) \<subseteq> set cs"
      using 2(1)[OF True] set_dropWhileD by fastforce
    moreover have "set (takeWhile (\<lambda>d. d = NL) cs) \<subseteq> set cs"
      using set_takeWhileD by fastforce
    ultimately show ?thesis using True by auto
  next
    case False
    then show ?thesis using 2(2) by auto
  qed
qed

lemma sub_newlines_hd: "xs \<noteq> [] \<Longrightarrow> sub_newlines xs \<noteq> [] \<and> hd (sub_newlines xs) = hd xs"
  by (cases xs) auto

lemma no_adj_append_nonp: "\<forall>c\<in>set ns. \<not> p c \<Longrightarrow> no_adj p zs \<Longrightarrow> no_adj p (ns @ zs)"
  by (induction ns) (auto simp: no_adj_Cons)

lemma sub_newlines_no_adj: "\<not> p NL \<Longrightarrow> no_adj p xs \<Longrightarrow> no_adj p (sub_newlines xs)"
proof (induction xs rule: sub_newlines.induct)
  case 1 then show ?case by simp
next
  case (2 c cs)
  have cs: "no_adj p cs" using 2(4) by (simp add: no_adj_Cons)
  show ?case
  proof (cases "c = NL")
    case True
    have "no_adj p (takeWhile (\<lambda>d. d = NL) cs @ dropWhile (\<lambda>d. d = NL) cs)"
      using cs by simp
    then have "no_adj p (dropWhile (\<lambda>d. d = NL) cs)" by (rule no_adj_suffix)
    then have ih: "no_adj p (sub_newlines (dropWhile (\<lambda>d. d = NL) cs))"
      using 2(1)[OF True 2(3)] by simp
    have "\<forall>c\<in>set (takeWhile (\<lambda>d. d = NL) cs). \<not> p c"
      using 2(3) set_takeWhileD by fastforce
    then have "\<forall>c\<in>set (if 2 \<le> length (takeWhile (\<lambda>d. d = NL) cs) then [NL, NL]
         else NL # takeWhile (\<lambda>d. d = NL) cs). \<not> p c"
      using 2(3) by simp
    then show ?thesis using True ih no_adj_append_nonp by simp
  next
    case False
    have "sub_newlines cs \<noteq> [] \<Longrightarrow> cs \<noteq> []" by (metis sub_newlines.simps(1))
    moreover have "cs \<noteq> [] \<Longrightarrow> hd (sub_newlines cs) = hd cs"
      using sub_newlines_hd by simp
    moreover have "cs \<noteq> [] \<Longrightarrow> \<not> (p c \<and> p (hd cs))"
      using 2(4) by (simp add: no_adj_Cons)
    ultimately show ?thesis using False 2(2)[OF False 2(3) cs] by (auto simp: no_adj_Cons)
  qed
qed

lemma no_nl3_NL_prefix:
  "ys = [] \<or> hd ys \<noteq> NL \<Longrightarrow> no_nl3 ys \<Longrightarrow> no_nl3 (NL # ys) \<and> no_nl3 (NL # NL # ys)"
  by (cases ys rule: no_nl3.cases) auto

lemma no_nl3_nonNL_Cons: "c \<noteq> NL \<Longrightarrow> no_nl3 ys \<Longrightarrow> no_nl3 (c # ys)"
  by (cases ys rule: no_nl3.cases) auto

lemma takeWhile_NL_short:
  "length (takeWhile (\<lambda>d. d = NL) cs) < 2 \<Longrightarrow>
     takeWhile (\<lambda>d. d = NL) cs = [] \<or> takeWhile (\<lambda>d. d = NL) cs = [NL]"
  by (cases cs rule: no_nl3.cases) (auto split: if_splits)

lemma no_nl3_run_short: "no_nl3 (NL # cs) \<Longrightarrow> length (takeWhile (\<lambda>d. d = NL) cs) < 2"
  by (cases cs rule: no_nl3.cases) (auto split: if_splits)

lemma sub_newlines_no_nl3: "no_nl3 (sub_newlines xs)"
proof (induction xs rule: sub_newlines.induct)
  case 1 then show ?case by simp
next
  case (2 c cs)
  show ?case
  proof (cases "c = NL")
    case True
    let ?tw = "takeWhile (\<lambda>d. d = NL) cs"
    let ?r = "sub_newlines (dropWhile (\<lambda>d. d = NL) cs)"
    have r: "no_nl3 ?r" using 2(1)[OF True] .
    have "dropWhile (\<lambda>d. d = NL) cs \<noteq> [] \<Longrightarrow> hd ?r \<noteq> NL"
      using sub_newlines_hd[of "dropWhile (\<lambda>d. d = NL) cs"] hd_dropWhile[of "\<lambda>d. d = NL" cs]
      by metis
    moreover have "?r \<noteq> [] \<Longrightarrow> dropWhile (\<lambda>d. d = NL) cs \<noteq> []"
      by (metis sub_newlines.simps(1))
    ultimately have h: "?r = [] \<or> hd ?r \<noteq> NL" by blast
    have pre: "no_nl3 (NL # ?r)" "no_nl3 (NL # NL # ?r)"
      using no_nl3_NL_prefix[OF h r] by simp_all
    have "\<not> 2 \<le> length ?tw \<Longrightarrow> ?tw = [] \<or> ?tw = [NL]"
      using takeWhile_NL_short[of cs] by simp
    then show ?thesis using True pre by auto
  next
    case False
    have "sub_newlines cs \<noteq> [] \<Longrightarrow> cs \<noteq> []" by (metis sub_newlines.simps(1))
    then have "sub_newlines cs = [] \<or> hd (sub_newlines cs) = hd cs \<and> cs \<noteq> []"
      using sub_newlines_hd by blast
    then show ?thesis using False 2(2)[OF False] no_nl3_nonNL_Cons by simp
  qed
qed

lemma sub_newlines_fix: "no_nl3 xs \<Longrightarrow> sub_newlines xs = xs"
proof (induction xs rule: sub_newlines.induct)
  case 1 then show ?case by simp
next
  case (2 c cs)
  have cs: "no_nl3 cs" using 2(3) by (rule no_nl3_tl)
  show ?case
  proof (cases "c = NL")
    case True
    have short: "\<not> 2 \<le> length (takeWhile (\<lambda>d. d = NL) cs)"
      using no_nl3_run_short 2(3) True by fastforce
    have "no_nl3 (takeWhile (\<lambda>d. d = NL) cs @ dropWhile (\<lambda>d. d = NL) cs)"
      using cs by simp
    then have "no_nl3 (dropWhile (\<lambda>d. d = NL) cs)" by (rule no_nl3_suffix)
    then have "sub_newlines (dropWhile (\<lambda>d. d = NL) cs) = dropWhile (\<lambda>d. d = NL) cs"
      using 2(1)[OF True] by simp
    then show ?thesis using True short by simp
  next
    case False
    then show ?thesis using 2(2)[OF False cs] by simp
  qed
qed

lemma no_NL_no_nl3: "NL \<notin> set xs \<Longrightarrow> no_nl3 xs"
  by (induction xs rule: no_nl3.induct) auto

subsection \<open>Cleaned text is a fixed point\<close>

lemma strip_no_adj: "no_adj p s \<Longrightarrow> no_adj p (strip s)"
proof -
  assume a: "no_adj p s"
  obtain x y where s: "s = x @ strip s @ y" using strip_decomp by blast
  then have "no_adj p (x @ strip s @ y)" using a by simp
  then have "no_adj p (strip s @ y)" by (rule no_adj_suffix)
  then show ?thesis by (rule no_adj_prefix)
qed

lemma strip_no_nl3: "no_nl3 s \<Longrightarrow> no_nl3 (strip s)"
proof -
  assume a: "no_nl3 s"
  obtain x y where s: "s = x @ strip s @ y" using strip_decomp by blast
  then have "no_nl3 (x @ strip s @ y)" using a by simp
  then have "no_nl3 (strip s @ y)" by (rule no_nl3_suffix)
  then show ?thesis by (rule no_nl3_prefix)
qed

lemma clean_text_eq: "clean_text text = strip (sub_runs is_space text)"
proof -
  have "NL \<notin> set (sub_runs is_space text)"
    using sub_runs_p_is_SP[of NL is_space "text"] is_space_consts NL_neq_SP by blast
  then show ?thesis by (simp add: clean_text_def sub_newlines_fix no_NL_no_nl3)
qed

lemma clean_text_no_NL: "NL \<notin> set (clean_text text)"
  using sub_runs_p_is_SP[of NL is_space "text"] is_space_consts NL_neq_SP strip_set
  unfolding clean_text_eq by blast

lemma clean_text_fix:
  assumes "\<forall>c\<in>set s. is_space c \<longrightarrow> c = SP" "no_adj is_space s"
    "s = [] \<or> (\<not> is_space (hd s) \<and> \<not> is_space (last s))"
  shows "clean_text s = s"
  using assms by (simp add: clean_text_eq sub_runs_fix strip_fix)

lemma clean_text_idem_aux: "clean_text (clean_text x) = clean_text x"
proof (rule clean_text_fix)
  show "\<forall>c\<in>set (clean_text x). is_space c \<longrightarrow> c = SP"
    unfolding clean_text_eq using strip_set sub_runs_p_is_SP by blast
  show "no_adj is_space (clean_text x)"
    unfolding clean_text_eq by (rule strip_no_adj) (rule sub_runs_no_adj)
  show "clean_text x = [] \<or> (\<not> is_space (hd (clean_text x)) \<and> \<not> is_space (last (clean_text x)))"
    unfolding clean_text_eq by (rule strip_ends)
qed

lemma pdf_clean_text_idem_aux: "pdf_clean_text (pdf_clean_text x) = pdf_clean_text x"
proof -
  let ?q = "\<lambda>c. c = SP \<or> c = TAB"
  let ?a = "sub_runs ?q x"
  let ?b = "sub_cr ?a"
  let ?c = "sub_newlines ?b"
  let ?y = "pdf_clean_text x"
  have y: "?y = strip ?c" by (simp add: pdf_clean_text_def)
  have qCR: "\<not> ?q CR" "\<not> ?q NL" using NL_neq_SP by auto
  have set_y: "set ?y \<subseteq> insert NL (set ?a)"
    unfolding y using strip_set[of ?c] sub_newlines_set[of ?b] sub_cr_set[of ?a] by blast
  have "\<forall>c\<in>set ?y. ?q c \<longrightarrow> c = SP"
  proof (intro ballI impI)
    fix c assume "c \<in> set ?y" "c = SP \<or> c = TAB"
    then have "c \<in> set ?a" using set_y qCR by auto
    then show "c = SP" using sub_runs_p_is_SP[of c ?q x] \<open>c = SP \<or> c = TAB\<close> by blast
  qed
  moreover have "no_adj ?q ?y"
    unfolding y
    by (intro strip_no_adj sub_newlines_no_adj sub_cr_no_adj sub_runs_no_adj qCR)
  ultimately have 1: "sub_runs ?q ?y = ?y" by (rule sub_runs_fix)
  have "CR \<notin> set ?y"
    unfolding y using strip_set[of ?c] sub_newlines_set[of ?b] sub_cr_no_CR[of ?a] by blast
  then have 2: "sub_cr ?y = ?y" by (rule sub_cr_fix)
  have "no_nl3 ?y" unfolding y by (intro strip_no_nl3 sub_newlines_no_nl3)
  then have 3: "sub_newlines ?y = ?y" by (rule sub_newlines_fix)
  have 4: "strip ?y = ?y" unfolding y by (rule strip_idem)
  have "pdf_clean_text ?y = strip (sub_newlines (sub_cr (sub_runs ?q ?y)))"
    by (simp add: pdf_clean_text_def)
  then show ?thesis using 1 2 3 4 by simp
qed

subsection \<open>The chunkers\<close>

lemma split_paragraphs_no_NL: "NL \<notin> set xs \<Longrightarrow> split_paragraphs xs = [xs]"
  by (induction xs) auto

lemma chunk_text_single:
  "chunk_text text S ov =
     (if len (clean_text text) < MIN_CHUNK_SIZE then [] else [clean_text text])"
proof (cases "len (clean_text text) < MIN_CHUNK_SIZE")
  case True
  then show ?thesis by (simp add: chunk_text_def)
next
  case False
  let ?t = "clean_text text"
  have ne: "?t \<noteq> []" using False by (auto simp: len_def MIN_CHUNK_SIZE_def)
  have sp: "split_paragraphs ?t = [?t]"
    by (rule split_paragraphs_no_NL) (rule clean_text_no_NL)
  have st: "strip ?t = ?t" unfolding clean_text_eq by (rule strip_idem)
  have "chunk_loop S ov [] [?t] = [?t]"
    using ne st False by (simp add: len_def MIN_CHUNK_SIZE_def)
  then show ?thesis using False sp by (simp add: chunk_text_def)
qed

lemma pdf_chunk_loop_lower:
  "\<forall>c\<in>set (pdf_chunk_loop self cur ps). min_chunk_size self \<le> len c"
  by (induction ps arbitrary: cur) (auto simp: Let_def)

lemma len_last_chars: "0 < k \<Longrightarrow> len (last_chars k s) \<le> k"
  by (auto simp: len_def last_chars_def)

lemma pdf_chunk_loop_upper:
  assumes "0 \<le> chunk_overlap self" "chunk_overlap self < min_chunk_size self"
    "min_chunk_size self < chunk_size self"
    "\<forall>p\<in>set ps. len (strip p) + 2 \<le> chunk_size self"
    "len cur < chunk_size self + min_chunk_size self"
  shows "\<forall>c\<in>set (pdf_chunk_loop self cur ps). len c < chunk_size self + min_chunk_size self"
  using assms(4,5)
proof (induction ps arbitrary: cur)
  case Nil
  then show ?case by simp
next
  case (Cons p ps)
  let ?S = "chunk_size self" and ?M = "min_chunk_size self" and ?O = "chunk_overlap self"
  have p: "len (strip p) + 2 \<le> ?S" and ps: "\<forall>p\<in>set ps. len (strip p) + 2 \<le> ?S"
    using Cons.prems(1) by simp_all
  let ?ov = "if ?O > 0 then last_chars ?O cur @ [SP] @ strip p else strip p"
  let ?ap = "if cur \<noteq> [] then cur @ [NL, NL] @ strip p else strip p"
  have n1: "len ?ov < ?S + ?M"
    using len_last_chars[of ?O cur] p assms(1,2) by (auto simp: len_def)
  have n2: "len ?ap < ?S + ?M" if "\<not> len cur + len (strip p) + 2 > ?S"
    using that p assms(1,2) by (auto simp: len_def)
  show ?case
  proof (cases "strip p = []")
    case True
    then show ?thesis using Cons.IH[OF ps Cons.prems(2)] by simp
  next
    case False
    show ?thesis
    proof (cases "len cur + len (strip p) + 2 > ?S")
      case True
      have "pdf_chunk_loop self cur (p # ps) =
              (if len cur \<ge> ?M then [cur] else []) @ pdf_chunk_loop self ?ov ps"
        using True False by (simp add: Let_def)
      then show ?thesis using Cons.IH[OF ps n1] Cons.prems(2) by auto
    next
      case nov: False
      have "pdf_chunk_loop self cur (p # ps) = pdf_chunk_loop self ?ap ps"
        using nov False by (simp add: Let_def)
      then show ?thesis using Cons.IH[OF ps n2[OF nov]] by simp
    qed
  qed
qed

lemmas text_eval =
  str_def len_def strip_def is_space_def NL_def SP_def CR_def TAB_def last_chars_def Let_def

lemma no_adj_nonp: "\<forall>c\<in>set xs. \<not> p c \<Longrightarrow> no_adj p xs"
  using no_adj_append_nonp[of xs p "[]"] by simp

subsection \<open>Claims about cleaning and chunking\<close>

text \<open>
  Claim C5. Text cleaning is idempotent: cleaning cleaned text gives it back, for the
  build chunker's \<open>clean_text\<close> and for the PDF parser's \<open>_clean_text\<close>.
\<close>

theorem clean_idempotent:
  "clean_text (clean_text x) = clean_text x \<and>
   pdf_clean_text (pdf_clean_text x) = pdf_clean_text x"
  using clean_text_idem_aux pdf_clean_text_idem_aux by simp

text \<open>
  Claim C3. \<open>chunk_text\<close> of \<^verbatim>\<open>build_index.py\<close> yields nothing when the cleaned text is
  shorter than \<open>MIN_CHUNK_SIZE\<close>, and otherwise exactly one chunk, the cleaned text: the
  cleaner leaves no newline, so the split gives one paragraph and the loop never yields
  before its end.
\<close>

theorem chunk_text_one_chunk:
  "NL \<notin> set (clean_text text) \<and>
   split_paragraphs (clean_text text) = [clean_text text] \<and>
   chunk_text text S ov =
     (if len (clean_text text) < MIN_CHUNK_SIZE then [] else [clean_text text])"
  using clean_text_no_NL split_paragraphs_no_NL chunk_text_single by simp

text \<open>
  Claim C2, as stated, fails for \<^verbatim>\<open>PDFParser._chunk_text\<close>: with chunk size 10, overlap 2
  and minimum 5, a paragraph of 20 characters followed by one of 5 gives two chunks, and
  the first, which is not the last, has 21 characters, outside \<open>[5, 15)\<close>.
\<close>

theorem chunk_bound_counterexample:
  "pdf_chunk_text \<lparr>chunk_size = 10, chunk_overlap = 2, min_chunk_size = 5\<rparr>
     (str ''aaaaaaaaaaaaaaaaaaaa\<newline>\<newline>bbbbb'')
     = [str '' aaaaaaaaaaaaaaaaaaaa'', str ''aa bbbbb''] \<and>
   \<not> len (str '' aaaaaaaaaaaaaaaaaaaa'') < 10 + 5"
  by (simp add: pdf_chunk_text_def text_eval)

text \<open>
  Claim C2, amended. For parameters with \<open>0 \<le> O < M < S\<close>: every chunk that
  \<^verbatim>\<open>PDFParser._chunk_text\<close> yields, the last included, has length at least \<open>M\<close>; when every
  stripped paragraph of the text has at most \<open>S - 2\<close> characters, every chunk has length
  below \<open>S + M\<close>. \<open>chunk_text\<close> of \<^verbatim>\<open>build_index.py\<close> yields chunks of length at least
  \<open>MIN_CHUNK_SIZE\<close>, and every chunk but its last is within \<open>[MIN_CHUNK_SIZE, S + MIN_CHUNK_SIZE)\<close>.
\<close>

theorem chunk_bounds:
  assumes "0 \<le> chunk_overlap self" "chunk_overlap self < min_chunk_size self"
    "min_chunk_size self < chunk_size self"
  shows "(\<forall>c\<in>set (pdf_chunk_text self text). min_chunk_size self \<le> len c) \<and>
    ((\<forall>p\<in>set (split_paragraphs text). len (strip p) + 2 \<le> chunk_size self) \<longrightarrow>
       (\<forall>c\<in>set (pdf_chunk_text self text). len c < chunk_size self + min_chunk_size self)) \<and>
    (\<forall>c\<in>set (chunk_text text' S ov). MIN_CHUNK_SIZE \<le> len c) \<and>
    (\<forall>c\<in>set (butlast (chunk_text text' S ov)).
       MIN_CHUNK_SIZE \<le> len c \<and> len c < S + MIN_CHUNK_SIZE)"
proof (intro conjI impI)
  show "\<forall>c\<in>set (pdf_chunk_text self text). min_chunk_size self \<le> len c"
    using pdf_chunk_loop_lower by (simp add: pdf_chunk_text_def)
next
  assume "\<forall>p\<in>set (split_paragraphs text). len (strip p) + 2 \<le> chunk_size self"
  moreover have "len ([]::pystr) < chunk_size self + min_chunk_size self"
    using assms by (simp add: len_def)
  ultimately show
    "\<forall>c\<in>set (pdf_chunk_text self text). len c < chunk_size self + min_chunk_size self"
    using pdf_chunk_loop_upper[OF assms] by (simp add: pdf_chunk_text_def)
next
  show "\<forall>c\<in>set (chunk_text text' S ov). MIN_CHUNK_SIZE \<le> len c"
    by (simp add: chunk_text_single)
next
  show "\<forall>c\<in>set (butlast (chunk_text text' S ov)).
          MIN_CHUNK_SIZE \<le> len c \<and> len c < S + MIN_CHUNK_SIZE"
    by (simp add: chunk_text_single)
qed

theorem chunk_bounds_witness:
  "pdf_chunk_text \<lparr>chunk_size = 10, chunk_overlap = 2, min_chunk_size = 5\<rparr>
     (str ''aaaaaaaa\<newline>\<newline>bbbbbbbb'') = [str ''aaaaaaaa'', str ''aa bbbbbbbb''] \<and>
   5 \<le> len (str ''aaaaaaaa'') \<and> len (str ''aaaaaaaa'') < 10 + 5 \<and>
   5 \<le> len (str ''aa bbbbbbbb'') \<and> len (str ''aa bbbbbbbb'') < 10 + 5 \<and>
   chunk_text (replicate 120 97) 512 64 = [replicate 120 97] \<and>
   MIN_CHUNK_SIZE \<le> len (replicate 120 (97::nat))"
proof -
  let ?P = "\<lparr>chunk_size = 10, chunk_overlap = 2, min_chunk_size = 5\<rparr>"
  let ?t = "str ''aaaaaaaa\<newline>\<newline>bbbbbbbb''"
  let ?u = "replicate 120 (97::nat)"
  have e1: "pdf_chunk_text ?P ?t = [str ''aaaaaaaa'', str ''aa bbbbbbbb'']"
    by (simp add: pdf_chunk_text_def text_eval)
  have "clean_text ?u = ?u"
    by (rule clean_text_fix) (simp_all add: is_space_def no_adj_nonp)
  then have e2: "chunk_text ?u 512 64 = [?u]"
    by (simp add: chunk_text_single len_def MIN_CHUNK_SIZE_def)
  have e3: "\<forall>p\<in>set (split_paragraphs ?t). len (strip p) + 2 \<le> chunk_size ?P"
    by (simp add: text_eval)
  have b: "(\<forall>c\<in>set (pdf_chunk_text ?P ?t). min_chunk_size ?P \<le> len c) \<and>
    ((\<forall>p\<in>set (split_paragraphs ?t). len (strip p) + 2 \<le> chunk_size ?P) \<longrightarrow>
       (\<forall>c\<in>set (pdf_chunk_text ?P ?t). len c < chunk_size ?P + min_chunk_size ?P)) \<and>
    (\<forall>c\<in>set (chunk_text ?u 512 64). MIN_CHUNK_SIZE \<le> len c) \<and>
    (\<forall>c\<in>set (butlast (chunk_text ?u 512 64)).
       MIN_CHUNK_SIZE \<le> len c \<and> len c < 512 + MIN_CHUNK_SIZE)"
    by (rule chunk_bounds) simp_all
  show ?thesis using b e3 unfolding e1 e2 by simp
qed

section \<open>Properties of the record parsers\<close>

subsection \<open>Plant records\<close>

lemmas json_eval =
  dict_get_def has_key_def py_or_def py_str_def py_int_def opt_part_def label_def
  replace_underscore_def py_lower_def ascii_lib_def

lemma parse_plant_level:
  "parse_plant lib (JObj item) src = Some e \<Longrightarrow>
     plant_safety_level e = plant_safety (plant_rating lib item) \<and>
     plant_safety_notes e = PLANT_SAFETY_WARNING"
  by (auto simp: parse_plant_def split: if_splits)

lemma plant_safety_Some:
  "plant_safety (Some n) =
     (if n = 5 \<or> n = 4 then str ''caution'' else if n = 3 then str ''warning''
      else if n = 1 then str ''lethal'' else str ''danger'')"
  by (simp add: plant_safety_def SAFETY_LEVELS_def)

lemma plant_rating_int:
  "map_of item (str ''edibility_rating'') = Some (JInt n) \<Longrightarrow> plant_rating lib item = Some n"
  by (simp add: plant_rating_def has_key_def dict_get_def py_int_def)

lemma plant_rating_missing:
  "map_of item (str ''edibility_rating'') = None \<Longrightarrow> plant_rating lib item = None"
  by (simp add: plant_rating_def has_key_def)

lemma warning_phrase: "contains (str ''SAFETY WARNING'') PLANT_SAFETY_WARNING"
  by (simp add: PLANT_SAFETY_WARNING_def str_def NL_def)

lemma warning_nonempty: "PLANT_SAFETY_WARNING \<noteq> []"
  by (simp add: PLANT_SAFETY_WARNING_def)

lemma parse_json_item_plants:
  "e \<in> set (parse_json_item lib uid now item (str ''plants'') src) \<Longrightarrow>
     safety_level e = str ''danger'' \<and> safety_notes e = Some PLANTS_NOTE"
  by (auto simp: parse_json_item_def Let_def split: if_splits)

lemma toxic_description:
  "join [NL, NL] (plant_description_parts ascii_lib toxic_plant) =
     str ''**Scientific Name**: Atropa belladonna'' @ [NL, NL] @
     str ''**Description**: An extremely toxic plant. All parts are poisonous.''"
  by (simp add: plant_description_parts_def toxic_plant_def plant_scientific_name_def
        plant_family_def plant_edibility_def plant_medicinal_uses_def plant_habitat_def
        json_eval str_def NL_def SP_def)

lemma toxic_content:
  "item_content ascii_lib toxic_plant =
     str ''common_name: Deadly Nightshade'' @ [NL] @
     str ''scientific_name: Atropa belladonna'' @ [NL] @
     str ''description: An extremely toxic plant. All parts are poisonous.''"
  by (simp add: item_content_def toxic_plant_def json_eval str_def NL_def len_def)

text \<open>
  Claim C4, as stated, fails for the build: \<^verbatim>\<open>parse_json_item\<close> of \<^verbatim>\<open>build_index.py\<close>
  does not read the rating. The record of the test \<^verbatim>\<open>test_toxic_plant_is_lethal\<close>, whose
  \<^verbatim>\<open>edibility_rating\<close> is 1, becomes an entry of category plants with safety level
  "danger", not "lethal".
\<close>

theorem plant_rating_counterexample:
  "map safety_level
     (parse_json_item ascii_lib (str ''0a1b2c3d'') (str ''2024-01-01T00:00:00+00:00'')
        toxic_plant (str ''plants'') (str ''plants.json'')) = [str ''danger''] \<and>
   map_of toxic_plant (str ''edibility_rating'') = Some (JInt 1) \<and>
   str ''danger'' \<noteq> str ''lethal''"
  by (simp add: parse_json_item_def toxic_content Let_def)
     (simp add: toxic_plant_def str_def len_def MIN_CHUNK_SIZE_def)

text \<open>
  Claim C4, amended. Every plant record that \<^verbatim>\<open>PlantParser._parse_plant\<close> turns into a
  plant entry gets its safety level from the table: an integer rating 5 or 4 gives
  "caution", 3 "warning", 1 "lethal", and 2, 0 and every other integer "danger"; a missing
  rating gives "danger". Its safety notes are the fixed disclaimer, which is not empty and
  contains "SAFETY WARNING". The build's \<^verbatim>\<open>parse_json_item\<close> gives every entry of category
  plants the level "danger" and one fixed warning note, whatever the rating.
\<close>

theorem plant_safety_mapping:
  assumes "parse_plant lib (JObj item) src = Some e"
  shows "(\<forall>n. map_of item (str ''edibility_rating'') = Some (JInt n) \<longrightarrow>
            plant_safety_level e =
              (if n = 5 \<or> n = 4 then str ''caution'' else if n = 3 then str ''warning''
               else if n = 1 then str ''lethal'' else str ''danger'')) \<and>
         (map_of item (str ''edibility_rating'') = None \<longrightarrow>
            plant_safety_level e = str ''danger'') \<and>
         plant_safety_notes e = PLANT_SAFETY_WARNING \<and>
         plant_safety_notes e \<noteq> [] \<and>
         contains (str ''SAFETY WARNING'') (plant_safety_notes e) \<and>
         (\<forall>b\<in>set (parse_json_item lib uid now item' (str ''plants'') src').
            safety_level b = str ''danger'' \<and> safety_notes b = Some PLANTS_NOTE)"
proof -
  have l: "plant_safety_level e = plant_safety (plant_rating lib item)"
    and n: "plant_safety_notes e = PLANT_SAFETY_WARNING"
    using parse_plant_level[OF assms] by simp_all
  have "plant_safety None = str ''danger''" by (simp add: plant_safety_def)
  then show ?thesis
    using l n plant_safety_Some plant_rating_int plant_rating_missing warning_phrase
      warning_nonempty parse_json_item_plants
    by simp
qed

theorem plant_safety_mapping_witness:
  "map_option plant_safety_level (parse_plant ascii_lib (JObj toxic_plant) (str ''plants.json''))
     = Some (str ''lethal'') \<and>
   map_option plant_safety_notes (parse_plant ascii_lib (JObj toxic_plant) (str ''plants.json''))
     = Some PLANT_SAFETY_WARNING \<and>
   map safety_level
     (parse_json_item ascii_lib (str ''0a1b2c3d'') (str ''2024-01-01T00:00:00+00:00'')
        toxic_plant (str ''plants'') (str ''plants.json'')) = [str ''danger'']"
proof -
  let ?r = "parse_plant ascii_lib (JObj toxic_plant) (str ''plants.json'')"
  let ?b = "parse_json_item ascii_lib (str ''0a1b2c3d'') (str ''2024-01-01T00:00:00+00:00'')
        toxic_plant (str ''plants'') (str ''plants.json'')"
  have "\<not> len (join [NL, NL] (plant_description_parts ascii_lib toxic_plant)) < 100"
    unfolding toxic_description by (simp add: len_def str_def)
  then obtain e where e: "?r = Some e" by (simp add: parse_plant_def)
  have r: "map_of toxic_plant (str ''edibility_rating'') = Some (JInt 1)"
    by (simp add: toxic_plant_def str_def)
  have "\<not> len (item_content ascii_lib toxic_plant) < MIN_CHUNK_SIZE"
    unfolding toxic_content by (simp add: len_def str_def MIN_CHUNK_SIZE_def)
  then obtain b where b: "?b = [b]" by (simp add: parse_json_item_def Let_def)
  have "plant_safety_level e = str ''lethal'' \<and> plant_safety_notes e = PLANT_SAFETY_WARNING \<and>
        safety_level b = str ''danger''"
    using plant_safety_mapping[OF e, of "str ''0a1b2c3d''" "str ''2024-01-01T00:00:00+00:00''"
        toxic_plant "str ''plants.json''"] r b
    by simp
  then show ?thesis using e b by simp
qed

subsection \<open>Short records\<close>

lemma parse_item_None_iff:
  "parse_item lib self item src = None \<longleftrightarrow>
     len (data_content_of lib self item) < min_content_length self"
  by (simp add: parse_item_def data_content_of_def Let_def split: prod.splits)

lemma parse_item_Some_content:
  "parse_item lib self item src = Some e \<Longrightarrow>
     data_content e = data_content_of lib self item \<and> min_content_length self \<le> len (data_content e)"
  by (auto simp: parse_item_def data_content_of_def Let_def split: prod.splits if_splits)

lemma short_fields_no_parts:
  "short_fields_only self item \<Longrightarrow> fst (data_parts lib self item) = []"
  by (induction item)
     (auto simp: short_fields_only_def Let_def split: prod.splits json.splits)

lemma parse_json_item_Nil_iff:
  "parse_json_item lib uid now item cat src = [] \<longleftrightarrow> len (item_content lib item) < MIN_CHUNK_SIZE"
  by (simp add: parse_json_item_def Let_def)

lemma parse_json_item_content:
  "e \<in> set (parse_json_item lib uid now item cat src) \<Longrightarrow>
     content e = item_content lib item \<and> MIN_CHUNK_SIZE \<le> len (content e)"
  by (auto simp: parse_json_item_def Let_def split: if_splits)

lemma one_field_data_content:
  "data_content_of ascii_lib (JSONParser [] [] 50) (one_field 45) =
     str ''**Description**: '' @ replicate 45 120"
  by (simp add: data_content_of_def one_field_def JSONParser_def json_eval str_def len_def SP_def)

lemma one_field_item_content:
  "item_content ascii_lib (one_field 90) = str ''description: '' @ replicate 90 120"
  by (simp add: item_content_def one_field_def json_eval str_def len_def)

text \<open>
  Claim C6, as stated, fails in its second half. A record whose only string field has 45
  characters, fewer than the minimum content length 50, is not dropped by
  \<^verbatim>\<open>JSONParser._parse_item\<close>: the label put before the value brings the content to 62
  characters. In the same way \<^verbatim>\<open>parse_json_item\<close> of \<^verbatim>\<open>build_index.py\<close> keeps a record
  whose only string field has 90 characters, fewer than \<open>MIN_CHUNK_SIZE\<close>.
\<close>

theorem short_field_counterexample:
  "map_option data_content
     (parse_item ascii_lib (JSONParser [] [] 50) (one_field 45) (str ''data.json''))
     = Some (str ''**Description**: '' @ replicate 45 120) \<and>
   len (replicate 45 (120::nat)) < 50 \<and>
   map content
     (parse_json_item ascii_lib (str ''0a1b2c3d'') (str ''2024-01-01T00:00:00+00:00'')
        (one_field 90) (str ''survival'') (str ''data.json''))
     = [str ''description: '' @ replicate 90 120] \<and>
   len (replicate 90 (120::nat)) < MIN_CHUNK_SIZE"
proof -
  have "\<not> len (data_content_of ascii_lib (JSONParser [] [] 50) (one_field 45))
          < min_content_length (JSONParser [] [] 50)"
    unfolding one_field_data_content by (simp add: len_def JSONParser_def str_def)
  then obtain e where e: "parse_item ascii_lib (JSONParser [] [] 50) (one_field 45)
      (str ''data.json'') = Some e"
    using parse_item_None_iff by fastforce
  have 1: "data_content e = str ''**Description**: '' @ replicate 45 120"
    using parse_item_Some_content[OF e] one_field_data_content by simp
  have "\<not> len (item_content ascii_lib (one_field 90)) < MIN_CHUNK_SIZE"
    unfolding one_field_item_content by (simp add: len_def MIN_CHUNK_SIZE_def str_def)
  then have 2: "map content
     (parse_json_item ascii_lib (str ''0a1b2c3d'') (str ''2024-01-01T00:00:00+00:00'')
        (one_field 90) (str ''survival'') (str ''data.json''))
     = [item_content ascii_lib (one_field 90)]"
    by (simp add: parse_json_item_def Let_def)
  show ?thesis using e 1 2 one_field_item_content by (simp add: len_def MIN_CHUNK_SIZE_def)
qed


text \<open>
  Claim C6, amended. Both parsers drop a record exactly when its assembled content (the
  labelled blocks, labels included) is shorter than the minimum, so every entry they
  return has content of at least the minimum length. In particular
  \<^verbatim>\<open>JSONParser._parse_item\<close>, with a positive minimum, returns nothing for a record in
  which every field is a title field, a string of at most 20 characters, or neither a
  string nor a list of strings.
\<close>

theorem short_content_dropped:
  "(parse_json_item lib uid now item cat src = [] \<longleftrightarrow>
      len (item_content lib item) < MIN_CHUNK_SIZE) \<and>
   (\<forall>e\<in>set (parse_json_item lib uid now item cat src). MIN_CHUNK_SIZE \<le> len (content e)) \<and>
   (parse_item lib self item src = None \<longleftrightarrow>
      len (data_content_of lib self item) < min_content_length self) \<and>
   (\<forall>e. parse_item lib self item src = Some e \<longrightarrow>
      min_content_length self \<le> len (data_content e)) \<and>
   (0 < min_content_length self \<and> short_fields_only self item \<longrightarrow>
      parse_item lib self item src = None)"
proof -
  have "parse_item lib self item src = None"
    if "0 < min_content_length self" "short_fields_only self item"
    using that short_fields_no_parts[of self item lib]
    by (simp add: parse_item_None_iff data_content_of_def len_def)
  moreover have "\<forall>e\<in>set (parse_json_item lib uid now item cat src).
      MIN_CHUNK_SIZE \<le> len (content e)"
    using parse_json_item_content by blast
  moreover have "\<forall>e. parse_item lib self item src = Some e \<longrightarrow>
      min_content_length self \<le> len (data_content e)"
    using parse_item_Some_content by blast
  ultimately show ?thesis
    using parse_json_item_Nil_iff[of lib uid now item cat src]
      parse_item_None_iff[of lib self item src]
    by simp
qed

theorem short_content_dropped_witness:
  "parse_item ascii_lib (JSONParser [] [] 50) short_record (str ''data.json'') = None \<and>
   parse_json_item ascii_lib (str ''0a1b2c3d'') (str ''2024-01-01T00:00:00+00:00'')
     (one_field 45) (str ''survival'') (str ''data.json'') = [] \<and>
   map (\<lambda>e. MIN_CHUNK_SIZE \<le> len (content e))
     (parse_json_item ascii_lib (str ''0a1b2c3d'') (str ''2024-01-01T00:00:00+00:00'')
        (one_field 120) (str ''survival'') (str ''data.json'')) = [True] \<and>
   map_option (\<lambda>e. 50 \<le> len (data_content e))
     (parse_item ascii_lib (JSONParser [] [] 50) (one_field 45) (str ''data.json'')) = Some True"
proof -
  let ?P = "JSONParser [] [] 50"
  let ?u = "str ''0a1b2c3d''" and ?n = "str ''2024-01-01T00:00:00+00:00''"
  let ?c = "str ''survival''" and ?s = "str ''data.json''"
  have p: "0 < min_content_length ?P" "min_content_length ?P = 50"
    by (simp_all add: JSONParser_def)
  have s: "short_fields_only ?P short_record"
    by (simp add: short_fields_only_def short_record_def JSONParser_def str_def len_def)
  have 1: "parse_item ascii_lib ?P short_record ?s = None"
    using short_content_dropped[of ascii_lib ?u ?n short_record ?c ?s ?P] p s by blast
  have c45: "item_content ascii_lib (one_field 45) = str ''description: '' @ replicate 45 120"
    by (simp add: item_content_def one_field_def json_eval str_def len_def)
  have c120: "item_content ascii_lib (one_field 120) = str ''description: '' @ replicate 120 120"
    by (simp add: item_content_def one_field_def json_eval str_def len_def)
  have "len (item_content ascii_lib (one_field 45)) < MIN_CHUNK_SIZE"
    unfolding c45 by (simp add: len_def MIN_CHUNK_SIZE_def str_def)
  then have 2: "parse_json_item ascii_lib ?u ?n (one_field 45) ?c ?s = []"
    using short_content_dropped[of ascii_lib ?u ?n "one_field 45" ?c ?s ?P] by blast
  have "\<not> len (item_content ascii_lib (one_field 120)) < MIN_CHUNK_SIZE"
    unfolding c120 by (simp add: len_def MIN_CHUNK_SIZE_def str_def)
  then have "parse_json_item ascii_lib ?u ?n (one_field 120) ?c ?s \<noteq> []"
    using short_content_dropped[of ascii_lib ?u ?n "one_field 120" ?c ?s ?P] by blast
  then obtain b where b: "parse_json_item ascii_lib ?u ?n (one_field 120) ?c ?s = [b]"
    by (auto simp: parse_json_item_def Let_def split: if_splits)
  have 3: "MIN_CHUNK_SIZE \<le> len (content b)"
    using short_content_dropped[of ascii_lib ?u ?n "one_field 120" ?c ?s ?P] b by simp
  have "\<not> len (data_content_of ascii_lib ?P (one_field 45)) < min_content_length ?P"
    unfolding one_field_data_content by (simp add: len_def JSONParser_def str_def)
  then obtain e where e: "parse_item ascii_lib ?P (one_field 45) ?s = Some e"
    using short_content_dropped[of ascii_lib ?u ?n "one_field 45" ?c ?s ?P] by fastforce
  have 4: "50 \<le> len (data_content e)"
    using short_content_dropped[of ascii_lib ?u ?n "one_field 45" ?c ?s ?P] e p(2) by simp
  show ?thesis using 1 2 3 4 b e by simp
qed

section \<open>Properties of the two-phase build\<close>

subsection \<open>Row identifiers of phase 1\<close>

lemma fold_max_upt: "fold max (map int [1..<Suc n]) 0 = int n"
  by (induction n) auto

lemma next_rowid_consecutive:
  assumes "map fst rows = map int [1..<Suc (length rows)]"
  shows "next_rowid rows = int (length rows) + 1"
  unfolding next_rowid_def assms fold_max_upt by (rule refl)

lemma insert_entry_Inr:
  assumes "insert_entry conn e = Inr (conn', r)"
  shows "\<exists>rows. entries conn = Some rows \<and> entries conn' = Some (rows @ [(next_rowid rows, e)]) \<and>
           r = next_rowid rows \<and> entry_id e \<notin> set (map (entry_id \<circ> snd) rows) \<and>
           integrity conn' = integrity conn"
  using assms by (auto simp: insert_entry_def split: option.splits if_splits)

lemma insert_all_rows:
  assumes "insert_all conn es = Inr conn'" "entries conn = Some rows"
    "map fst rows = map int [1..<Suc (length rows)]"
  shows "\<exists>rows'. entries conn' = Some (rows @ rows') \<and> map snd rows' = es \<and>
           map fst (rows @ rows') = map int [1..<Suc (length rows + length es)]"
  using assms
proof (induction es arbitrary: conn rows)
  case Nil
  then show ?case by simp
next
  case (Cons e es)
  from Cons.prems(1) obtain c1 r where
    s: "insert_entry conn e = Inr (c1, r)" and rest: "insert_all c1 es = Inr conn'"
    by (auto split: sum.splits)
  from insert_entry_Inr[OF s] Cons.prems(2)
  have c1: "entries c1 = Some (rows @ [(next_rowid rows, e)])" by auto
  have nr: "next_rowid rows = int (length rows) + 1"
    using Cons.prems(3) by (rule next_rowid_consecutive)
  have inv: "map fst (rows @ [(next_rowid rows, e)])
               = map int [1..<Suc (length (rows @ [(next_rowid rows, e)]))]"
    using Cons.prems(3) nr by simp
  from Cons.IH[OF rest c1 inv] obtain rows' where
    r: "entries conn' = Some ((rows @ [(next_rowid rows, e)]) @ rows')" "map snd rows' = es"
       "map fst ((rows @ [(next_rowid rows, e)]) @ rows')
          = map int [1..<Suc (length (rows @ [(next_rowid rows, e)]) + length es)]"
    by blast
  show ?case
    by (rule exI[of _ "(next_rowid rows, e) # rows'"]) (use r in simp)
qed

lemma insert_all_fresh:
  assumes "insert_all conn es = Inr conn'" "entries conn = Some []"
  shows "\<exists>rows. entries conn' = Some rows \<and> map snd rows = es \<and>
           map fst rows = map int [1..<Suc (length es)]"
  using insert_all_rows[OF assms] by simp

subsection \<open>Batches and the vector index\<close>

lemma concat_batches: "0 < n \<Longrightarrow> concat (batches n xs) = xs"
proof (induction n xs rule: batches.induct)
  case (1 n xs)
  show ?case
  proof (cases "xs = []")
    case True
    then show ?thesis by (simp add: batches.simps[of n "[]"])
  next
    case False
    then have "concat (batches n (drop n xs)) = drop n xs" using 1 by simp
    then show ?thesis using False 1(2) by (simp add: batches.simps[of n xs])
  qed
qed

lemma concat_map_batches:
  "0 < n \<Longrightarrow> concat (map (map f) (batches n xs)) = map f xs"
  using concat_batches[of n xs] by (metis map_concat)

lemma sorted_rowids: "sorted (map int [1..<Suc n])"
  by (induction n) (auto simp: sorted_append)

lemma select_sorted:
  assumes "entries conn = Some rows" "map fst rows = map int [1..<Suc (length rows)]"
  shows "select_rowid_content conn = Inr (map (\<lambda>(rowid, e). (rowid, content e)) rows)"
proof -
  let ?r = "map (\<lambda>(rowid, e). (rowid, content e)) rows"
  have "map fst ?r = map fst rows" by (induction rows) auto
  then have "sorted (map fst ?r)" using assms(2) sorted_rowids by simp
  then have "sort_key fst ?r = ?r" by (rule sort_key_id_if_sorted)
  then show ?thesis using assms(1) by (simp add: select_rowid_content_def)
qed

lemma add_point_Inr:
  assumes "add_point index p = Inr index'" "fst p \<notin> set (map fst (items index))"
  shows "items index' = items index @ [p] \<and> dim index' = dim index \<and>
         max_elements index' = max_elements index \<and> ef index' = ef index \<and>
         length (snd p) = dim index \<and> length (items index) < max_elements index"
  using assms by (auto simp: add_point_def split: if_splits)

lemma add_points_Inr:
  assumes "add_points index ps = Inr index'" "distinct (map fst ps)"
    "set (map fst ps) \<inter> set (map fst (items index)) = {}"
  shows "items index' = items index @ ps \<and> dim index' = dim index \<and>
         max_elements index' = max_elements index \<and> ef index' = ef index \<and>
         (\<forall>p\<in>set ps. length (snd p) = dim index)"
  using assms
proof (induction ps arbitrary: index)
  case Nil
  then show ?case by simp
next
  case (Cons p ps)
  from Cons.prems(1) obtain i1 where
    s: "add_point index p = Inr i1" and rest: "add_points i1 ps = Inr index'"
    by (auto split: sum.splits)
  have fresh: "fst p \<notin> set (map fst (items index))" using Cons.prems(3) by auto
  note a = add_point_Inr[OF s fresh]
  have d: "distinct (map fst ps)" using Cons.prems(2) by simp
  have dj: "set (map fst ps) \<inter> set (map fst (items i1)) = {}"
    using Cons.prems(2,3) a by auto
  from Cons.IH[OF rest d dj] a show ?case by simp
qed

lemma add_points_complete:
  assumes "distinct (map fst ps)" "set (map fst ps) \<inter> set (map fst (items index)) = {}"
    "\<forall>p\<in>set ps. length (snd p) = dim index"
    "length (items index) + length ps \<le> max_elements index"
  shows "add_points index ps = Inr (index\<lparr>items := items index @ ps\<rparr>)"
  using assms
proof (induction ps arbitrary: index)
  case Nil
  then show ?case by simp
next
  case (Cons p ps)
  let ?i1 = "index\<lparr>items := items index @ [p]\<rparr>"
  have s: "add_point index p = Inr ?i1"
    using Cons.prems by (auto simp: add_point_def)
  have "add_points ?i1 ps = Inr (?i1\<lparr>items := items ?i1 @ ps\<rparr>)"
    by (rule Cons.IH) (use Cons.prems in auto)
  then show ?case using s by simp
qed

lemma distinct_rowids: "distinct (map int [1..<Suc n])"
  by (simp add: distinct_map inj_on_def)

subsection \<open>What a finished build has written\<close>

lemma insert_all_total:
  assumes "distinct (map entry_id es)" "entries conn = Some rows" "entries_fts conn = Some fts"
    "set (map entry_id es) \<inter> set (map (entry_id \<circ> snd) rows) = {}"
  shows "\<exists>conn'. insert_all conn es = Inr conn'"
  using assms
proof (induction es arbitrary: conn rows fts)
  case Nil
  then show ?case by simp
next
  case (Cons e es)
  let ?c1 = "conn\<lparr>entries := Some (rows @ [(next_rowid rows, e)]),
                   entries_fts := Some (fts @ [(next_rowid rows, entry_id e, title e,
                                                content e, tags e)])\<rparr>"
  have s: "insert_entry conn e = Inr (?c1, next_rowid rows)"
    using Cons.prems by (auto simp: insert_entry_def)
  have "\<exists>conn'. insert_all ?c1 es = Inr conn'"
    by (rule Cons.IH[of ?c1 "rows @ [(next_rowid rows, e)]"]) (use Cons.prems in auto)
  then show ?case using s by simp
qed

lemma created_fresh:
  "create_database img (fs\<lparr>knowledge_db := Absent, vectors_idx := Absent\<rparr>) =
     (commit img (create_tables empty_database) (fs\<lparr>knowledge_db := Absent, vectors_idx := Absent\<rparr>),
      Inr (create_tables empty_database))"
  "entries (create_tables empty_database) = Some []"
  "entries_fts (create_tables empty_database) = Some []"
  by (simp_all add: create_database_def create_tables_def empty_database_def)

lemma build_vector_index_Inr:
  assumes "build_vector_index img conn encode fs = (fs', Inr index)"
    "entries conn = Some rows" "map fst rows = map int [1..<Suc (length rows)]"
  shows "rows \<noteq> [] \<and> map fst (items index) = map fst rows \<and>
         map snd (items index) =
           concat (map (\<lambda>batch. encode (map snd batch))
                       (batches 100 (map (\<lambda>(rowid, e). (rowid, content e)) rows))) \<and>
         fs' = fs\<lparr>vectors_idx := File (index_image img index) (Some index)\<rparr>"
proof -
  let ?r = "map (\<lambda>(rowid, e). (rowid, content e)) rows"
  let ?emb = "concat (map (\<lambda>batch. encode (map snd batch)) (batches 100 ?r))"
  let ?ids = "concat (map (map fst) (batches 100 ?r))"
  have sel: "select_rowid_content conn = Inr ?r" using assms(2,3) by (rule select_sorted)
  have "map fst ?r = map fst rows" by (induction rows) auto
  then have ids: "?ids = map fst rows" by (simp add: concat_map_batches)
  define res where "res = add_items (init_index EMBEDDING_DIM (length ?ids)) ?emb ?ids"
  have ne: "?r \<noteq> []"
  proof
    assume "?r = []"
    then have "build_vector_index img conn encode fs = (fs, Inl ValueError)"
      using sel by (simp add: build_vector_index_def)
    with assms(1) show False by simp
  qed
  have eq: "build_vector_index img conn encode fs =
      (case res of
         Inl err \<Rightarrow> (fs, Inl err)
       | Inr i1 \<Rightarrow> (fs\<lparr>vectors_idx := File (index_image img (i1\<lparr>ef := 50\<rparr>))
                                              (Some (i1\<lparr>ef := 50\<rparr>))\<rparr>,
                    Inr (i1\<lparr>ef := 50\<rparr>)))"
    unfolding res_def build_vector_index_def Let_def sel using ne by simp
  obtain i1 where a0: "res = Inr i1"
    using assms(1) unfolding eq by (cases res) simp_all
  have i: "index = i1\<lparr>ef := 50\<rparr>"
    and f: "fs' = fs\<lparr>vectors_idx := File (index_image img (i1\<lparr>ef := 50\<rparr>)) (Some (i1\<lparr>ef := 50\<rparr>))\<rparr>"
    using assms(1) unfolding eq a0 by auto
  have a: "add_items (init_index EMBEDDING_DIM (length ?ids)) ?emb ?ids = Inr i1"
    using a0 by (simp add: res_def)
  from a have l: "length ?emb = length ?ids"
    and p: "add_points (init_index EMBEDDING_DIM (length ?ids)) (zip ?ids ?emb) = Inr i1"
    by (auto simp: add_items_def split: if_splits)
  have z: "map fst (zip ?ids ?emb) = ?ids" "map snd (zip ?ids ?emb) = ?emb"
    using l by simp_all
  have "distinct ?ids" unfolding ids assms(3) by (rule distinct_rowids)
  then have d: "distinct (map fst (zip ?ids ?emb))" by (simp only: z(1))
  have "items i1 = items (init_index EMBEDDING_DIM (length ?ids)) @ zip ?ids ?emb"
    using add_points_Inr[OF p d] by (simp add: init_index_def)
  then have "items i1 = zip ?ids ?emb" by (simp add: init_index_def)
  then have "map fst (items index) = map fst rows" "map snd (items index) = ?emb"
    using i z ids by simp_all
  then show ?thesis using ne i f by simp
qed

lemma build_index_Inr:
  assumes "build_index img encode es fs = (fs', Inr n)"
  shows "n = length es \<and> es \<noteq> [] \<and>
         db_rows fs' = zip (map int [1..<Suc (length es)]) es \<and>
         map fst (index_items fs') = map int [1..<Suc (length es)] \<and>
         map snd (index_items fs') =
           concat (map (\<lambda>batch. encode (map snd batch))
                       (batches 100 (map (\<lambda>(rowid, e). (rowid, content e)) (db_rows fs'))))"
proof -
  let ?fs0 = "fs\<lparr>knowledge_db := Absent, vectors_idx := Absent\<rparr>"
  let ?c0 = "create_tables empty_database"
  let ?fs1 = "commit img ?c0 ?fs0"
  from assms obtain c1 index where
    ins: "insert_all ?c0 es = Inr c1"
    and bv: "build_vector_index img c1 encode (commit img c1 ?fs1) = (fs', Inr index)"
    and n: "n = length es"
    unfolding build_index_def created_fresh(1)
    by (auto split: sum.splits prod.splits)
  from insert_all_fresh[OF ins created_fresh(2)] obtain rows where
    r: "entries c1 = Some rows" "map snd rows = es" "map fst rows = map int [1..<Suc (length es)]"
    by blast
  have len: "length rows = length es" using r(2) by (metis length_map)
  have inv: "map fst rows = map int [1..<Suc (length rows)]" using r(3) len by simp
  note b = build_vector_index_Inr[OF bv r(1) inv]
  have rows: "rows = zip (map int [1..<Suc (length es)]) es"
    using r(2,3) by (metis zip_map_fst_snd)
  have dbr: "db_rows fs' = rows"
    using b r(1) by (simp add: db_rows_def commit_def)
  have ii: "index_items fs' = items index"
    using b by (simp add: index_items_def)
  show ?thesis using n b rows dbr ii r(3) by auto
qed

lemma build_index_completes:
  assumes "distinct (map entry_id es)" "es \<noteq> []" "\<forall>ts. encode ts = map enc ts"
    "\<forall>t. length (enc t) = EMBEDDING_DIM"
  shows "\<exists>fs'. build_index img encode es fs = (fs', Inr (length es))"
proof -
  let ?fs0 = "fs\<lparr>knowledge_db := Absent, vectors_idx := Absent\<rparr>"
  let ?c0 = "create_tables empty_database"
  let ?fs1 = "commit img ?c0 ?fs0"
  obtain c1 where ins: "insert_all ?c0 es = Inr c1"
    using insert_all_total[OF assms(1) created_fresh(2,3)] by auto
  from insert_all_fresh[OF ins created_fresh(2)] obtain rows where
    r: "entries c1 = Some rows" "map snd rows = es" "map fst rows = map int [1..<Suc (length es)]"
    by blast
  have len: "length rows = length es" using r(2) by (metis length_map)
  have inv: "map fst rows = map int [1..<Suc (length rows)]" using r(3) len by simp
  let ?r = "map (\<lambda>(rowid, e). (rowid, content e)) rows"
  let ?emb = "concat (map (\<lambda>batch. encode (map snd batch)) (batches 100 ?r))"
  let ?ids = "concat (map (map fst) (batches 100 ?r))"
  let ?i0 = "init_index EMBEDDING_DIM (length ?ids)"
  have sel: "select_rowid_content c1 = Inr ?r" using r(1) inv by (rule select_sorted)
  have ne: "?r \<noteq> []" using assms(2) len by auto
  have "map fst ?r = map fst rows" by (induction rows) auto
  then have ids: "?ids = map fst rows" by (simp add: concat_map_batches)
  have e1: "(\<lambda>batch. encode (map snd batch)) = map (enc \<circ> snd)"
    using assms(3) by auto
  have emb: "?emb = map (enc \<circ> snd) ?r"
    unfolding e1 by (rule concat_map_batches) simp
  have l: "length ?emb = length ?ids" unfolding emb ids by simp
  have z: "map fst (zip ?ids ?emb) = ?ids" using l by simp
  have "distinct ?ids" unfolding ids inv by (rule distinct_rowids)
  then have d: "distinct (map fst (zip ?ids ?emb))" by (simp only: z)
  have dims: "\<forall>p\<in>set (zip ?ids ?emb). length (snd p) = dim ?i0"
  proof
    fix p assume "p \<in> set (zip ?ids ?emb)"
    then have "snd p \<in> set ?emb" by (metis in_set_zipE prod.collapse)
    then show "length (snd p) = dim ?i0"
      unfolding emb using assms(4) by (auto simp: init_index_def)
  qed
  have cap: "length (items ?i0) + length (zip ?ids ?emb) \<le> max_elements ?i0"
    using l by (simp add: init_index_def)
  have dj: "set (map fst (zip ?ids ?emb)) \<inter> set (map fst (items ?i0)) = {}"
    by (simp add: init_index_def)
  have "add_points ?i0 (zip ?ids ?emb) = Inr (?i0\<lparr>items := items ?i0 @ zip ?ids ?emb\<rparr>)"
    using d dj dims cap by (rule add_points_complete)
  then have a: "add_items ?i0 ?emb ?ids = Inr (?i0\<lparr>items := items ?i0 @ zip ?ids ?emb\<rparr>)"
    using l by (simp add: add_items_def)
  have "\<exists>fs' index. build_vector_index img c1 encode (commit img c1 ?fs1) = (fs', Inr index)"
    unfolding build_vector_index_def Let_def sel using ne a by simp
  then show ?thesis
    unfolding build_index_def created_fresh(1) using ins by auto
qed

lemma demo_completes:
  assumes "distinct (map entry_id es)" "es \<noteq> []"
  shows "\<exists>fs'. build_index null_images zero_encode es no_files = (fs', Inr (length es))"
  by (rule build_index_completes[OF assms, of zero_encode "\<lambda>t. replicate EMBEDDING_DIM 0"])
     (simp_all add: zero_encode_def)

lemma build_vector_index_empty:
  "entries conn = Some [] \<Longrightarrow> build_vector_index img conn encode fs = (fs, Inl ValueError)"
  by (simp add: build_vector_index_def select_rowid_content_def)

lemma build_index_empty:
  "build_index img encode [] fs =
     (commit img (create_tables empty_database) (fs\<lparr>knowledge_db := Absent, vectors_idx := Absent\<rparr>),
      Inl ValueError)"
  unfolding build_index_def created_fresh(1)
  by (simp add: build_vector_index_empty created_fresh(2) commit_def)

lemma set_rowids: "set (map int [1..<Suc n]) = {1..int n}"
proof -
  have "set (map int [1..<Suc n]) = int ` {1..n}" by auto
  also have "\<dots> = {1..int n}" using image_int_atLeastAtMost[of 1 n] by simp
  finally show ?thesis .
qed

lemma map_of_rowids:
  assumes "1 \<le> L" "L \<le> int (length vs)"
  shows "map_of (zip (map int [1..<Suc (length vs)]) vs) L = Some (vs ! nat (L - 1))"
proof -
  let ?ks = "map int [1..<Suc (length vs)]"
  have i: "nat (L - 1) < length vs" using assms by auto
  have "?ks ! nat (L - 1) = L" using i assms by (simp add: nth_append del: upt_Suc)
  moreover have len: "length ?ks = length vs" by (simp del: upt_Suc)
  have "map_of (zip ?ks vs) (?ks ! nat (L - 1)) = Some (vs ! nat (L - 1))"
    using map_of_zip_nth[OF len distinct_rowids i] .
  ultimately show ?thesis by simp
qed

lemma index_items_aligned:
  assumes "build_index img encode es fs = (fs', Inr n)" "\<forall>ts. encode ts = map enc ts"
  shows "index_items fs' = map (\<lambda>(rowid, e). (rowid, enc (content e))) (db_rows fs')"
proof -
  note b = build_index_Inr[OF assms(1)]
  let ?r = "map (\<lambda>(rowid, e). (rowid, content e)) (db_rows fs')"
  have e1: "(\<lambda>batch. encode (map snd batch)) = map (enc \<circ> snd)"
    using assms(2) by auto
  have "concat (map (\<lambda>batch. encode (map snd batch)) (batches 100 ?r)) = map (enc \<circ> snd) ?r"
    unfolding e1 by (rule concat_map_batches) simp
  then have s: "map snd (index_items fs') = map (enc \<circ> snd) ?r" using b by simp
  have f: "map fst (index_items fs') = map fst (db_rows fs')" using b by simp
  let ?t = "map (\<lambda>(rowid, e). (rowid, enc (content e))) (db_rows fs')"
  have "map fst ?t = map fst (db_rows fs')" "map snd ?t = map (enc \<circ> snd) ?r"
    by (induction "db_rows fs'") auto
  then have "map fst (index_items fs') = map fst ?t" "map snd (index_items fs') = map snd ?t"
    using s f by simp_all
  then show ?thesis by (metis zip_map_fst_snd)
qed

subsection \<open>Claims about the build\<close>

text \<open>
  Claim C7. When the relational store has no row at the start of the vector phase,
  \<^verbatim>\<open>build_vector_index\<close> raises \<^verbatim>\<open>ValueError\<close> before it builds or saves an index and
  leaves every file as it was; a build over no entries ends with that error, with no
  vector index file and with the database file that phase 1 committed.
\<close>

theorem empty_store_aborts:
  "(entries conn = Some [] \<longrightarrow>
      build_vector_index img conn encode fs = (fs, Inl ValueError)) \<and>
   snd (build_index img encode [] fs) = Inl ValueError \<and>
   vectors_idx (fst (build_index img encode [] fs)) = Absent \<and>
   knowledge_db (fst (build_index img encode [] fs)) =
     File (db_image img (create_tables empty_database)) (Some (create_tables empty_database)) \<and>
   db_rows (fst (build_index img encode [] fs)) = []"
  using build_vector_index_empty
  by (simp add: build_index_empty commit_def db_rows_def created_fresh(2))

theorem empty_store_aborts_witness:
  "entries (create_tables empty_database) = Some [] \<and>
   build_vector_index null_images (create_tables empty_database) zero_encode
     (commit null_images (create_tables empty_database) no_files)
     = (commit null_images (create_tables empty_database) no_files, Inl ValueError) \<and>
   vectors_idx (commit null_images (create_tables empty_database) no_files) = Absent \<and>
   snd (build_index null_images zero_encode [] no_files) = Inl ValueError"
  using empty_store_aborts[of "create_tables empty_database" null_images zero_encode
      "commit null_images (create_tables empty_database) no_files"]
    empty_store_aborts[of "create_tables empty_database" null_images zero_encode no_files]
  by (simp add: created_fresh(2) commit_def no_files_def)

text \<open>
  Claim C10. An insert into a table whose rowids are 1 to k returns the rowid k + 1, so
  phase 1 numbers the rows 1, 2, ... in insertion order; after a finished build the
  labels of the vector index are these rowids in ascending order, and 0 is not among
  them.
\<close>

theorem rowids_start_at_one:
  "(entries conn = Some rows \<and> map fst rows = map int [1..<Suc (length rows)] \<and>
      insert_entry conn e = Inr (conn', r) \<longrightarrow> r = int (length rows) + 1) \<and>
   (build_index img encode es fs = (fs', Inr n) \<longrightarrow>
      db_rows fs' = zip (map int [1..<Suc (length es)]) es \<and>
      map fst (index_items fs') = map int [1..<Suc (length es)] \<and>
      0 \<notin> set (map fst (index_items fs')))"
proof (intro conjI impI)
  assume a: "entries conn = Some rows \<and> map fst rows = map int [1..<Suc (length rows)] \<and>
      insert_entry conn e = Inr (conn', r)"
  then have "r = next_rowid rows" using insert_entry_Inr[of conn e conn' r] by auto
  moreover from a have "map fst rows = map int [1..<Suc (length rows)]" by blast
  then have "next_rowid rows = int (length rows) + 1" by (rule next_rowid_consecutive)
  ultimately show "r = int (length rows) + 1" by simp
next
  assume b: "build_index img encode es fs = (fs', Inr n)"
  note c = build_index_Inr[OF b]
  show "db_rows fs' = zip (map int [1..<Suc (length es)]) es" using c by simp
  show "map fst (index_items fs') = map int [1..<Suc (length es)]" using c by simp
  have "set (map fst (index_items fs')) = {1..int (length es)}"
    using c set_rowids by metis
  then show "0 \<notin> set (map fst (index_items fs'))" by simp
qed

theorem rowids_start_at_one_witness:
  "snd (build_index null_images zero_encode
          [demo_entry (str ''0a1b2c3d'') (str ''first''), demo_entry (str ''4e5f6a7b'') (str ''second'')]
          no_files) = Inr 2 \<and>
   map fst (db_rows (fst (build_index null_images zero_encode
          [demo_entry (str ''0a1b2c3d'') (str ''first''), demo_entry (str ''4e5f6a7b'') (str ''second'')]
          no_files))) = [1, 2] \<and>
   map fst (index_items (fst (build_index null_images zero_encode
          [demo_entry (str ''0a1b2c3d'') (str ''first''), demo_entry (str ''4e5f6a7b'') (str ''second'')]
          no_files))) = [1, 2]"
proof -
  let ?es = "[demo_entry (str ''0a1b2c3d'') (str ''first''),
              demo_entry (str ''4e5f6a7b'') (str ''second'')]"
  have "distinct (map entry_id ?es)" by (simp add: demo_entry_def str_def)
  then obtain fs' where b: "build_index null_images zero_encode ?es no_files = (fs', Inr (length ?es))"
    using demo_completes[of ?es] by auto
  have "db_rows fs' = zip (map int [1..<Suc (length ?es)]) ?es \<and>
        map fst (index_items fs') = map int [1..<Suc (length ?es)]"
    using rowids_start_at_one[where img = null_images and encode = zero_encode and es = ?es
        and fs = no_files and fs' = fs' and n = "length ?es"] b
    by blast
  then have "map fst (db_rows fs') = [1, 2] \<and> map fst (index_items fs') = [1, 2]"
    by simp
  then show ?thesis using b by simp
qed

text \<open>
  Claim C1, as stated, fails at the label 0: after a build of one entry (N = 1) the only
  label of the vector index and the only rowid of the relational store is 1, so the label
  0 of the range \<open>[0, N)\<close> names no item and no row.
\<close>

theorem label_zero_counterexample:
  "snd (build_index null_images zero_encode [demo_entry (str ''0a1b2c3d'') (str ''first'')] no_files)
     = Inr 1 \<and>
   map fst (index_items (fst (build_index null_images zero_encode
      [demo_entry (str ''0a1b2c3d'') (str ''first'')] no_files))) = [1] \<and>
   map fst (db_rows (fst (build_index null_images zero_encode
      [demo_entry (str ''0a1b2c3d'') (str ''first'')] no_files))) = [1] \<and>
   (0::int) \<notin> set [1]"
proof -
  let ?es = "[demo_entry (str ''0a1b2c3d'') (str ''first'')]"
  obtain fs' where b: "build_index null_images zero_encode ?es no_files = (fs', Inr (length ?es))"
    using demo_completes[of ?es] by auto
  note c = build_index_Inr[OF b]
  have "map fst (db_rows fs') = [1] \<and> map fst (index_items fs') = [1]"
    using c by simp
  then show ?thesis using b by simp
qed

text \<open>
  Claim C1, amended. After a finished build of N entries, with an embedding model that
  maps each text of a batch to its vector, N is at least 1, the vector index has as many
  items as the relational store has rows, the labels of the index and the rowids of the
  store are both the numbers 1 to N, and for every label L from 1 to N the row with
  rowid L is the Lth entry inserted and the item with label L is the embedding of that
  row's content.
\<close>

theorem identifier_alignment:
  assumes "build_index img encode es fs = (fs', Inr n)" "\<forall>ts. encode ts = map enc ts"
  shows "1 \<le> length es \<and>
         length (index_items fs') = length (db_rows fs') \<and>
         length (db_rows fs') = length es \<and>
         index_items fs' = map (\<lambda>(rowid, e). (rowid, enc (content e))) (db_rows fs') \<and>
         set (map fst (index_items fs')) = {1..int (length es)} \<and>
         set (map fst (db_rows fs')) = {1..int (length es)} \<and>
         (\<forall>L\<in>{1..int (length es)}.
            map_of (db_rows fs') L = Some (es ! nat (L - 1)) \<and>
            map_of (index_items fs') L = Some (enc (content (es ! nat (L - 1)))))"
proof -
  note c = build_index_Inr[OF assms(1)]
  have rows: "db_rows fs' = zip (map int [1..<Suc (length es)]) es" using c by simp
  have al: "index_items fs' = map (\<lambda>(rowid, e). (rowid, enc (content e))) (db_rows fs')"
    using assms by (rule index_items_aligned)
  have l1: "length (db_rows fs') = length es" unfolding rows by (simp del: upt_Suc)
  have l2: "length (index_items fs') = length (db_rows fs')" unfolding al by simp
  have s1: "set (map fst (index_items fs')) = {1..int (length es)}"
    using c set_rowids by metis
  have "map fst (db_rows fs') = map int [1..<Suc (length es)]"
    unfolding rows by (simp del: upt_Suc)
  then have s2: "set (map fst (db_rows fs')) = {1..int (length es)}"
    using set_rowids by metis
  have look: "map_of (db_rows fs') L = Some (es ! nat (L - 1)) \<and>
        map_of (index_items fs') L = Some (enc (content (es ! nat (L - 1))))"
    if "L \<in> {1..int (length es)}" for L
  proof -
    have m: "map_of (db_rows fs') L = Some (es ! nat (L - 1))"
      unfolding rows using that by (intro map_of_rowids) simp_all
    have "map_of (index_items fs') = map_option (\<lambda>e. enc (content e)) \<circ> map_of (db_rows fs')"
      unfolding al by (rule map_of_map)
    then show ?thesis using m by simp
  qed
  have "1 \<le> length es" using c by (cases es) simp_all
  then show ?thesis using l1 l2 al s1 s2 look by blast
qed

theorem identifier_alignment_witness:
  "snd (build_index null_images zero_encode
          [demo_entry (str ''0a1b2c3d'') (str ''first''), demo_entry (str ''4e5f6a7b'') (str ''second'')]
          no_files) = Inr 2 \<and>
   index_items (fst (build_index null_images zero_encode
          [demo_entry (str ''0a1b2c3d'') (str ''first''), demo_entry (str ''4e5f6a7b'') (str ''second'')]
          no_files))
     = [(1, replicate EMBEDDING_DIM 0), (2, replicate EMBEDDING_DIM 0)] \<and>
   db_rows (fst (build_index null_images zero_encode
          [demo_entry (str ''0a1b2c3d'') (str ''first''), demo_entry (str ''4e5f6a7b'') (str ''second'')]
          no_files))
     = [(1, demo_entry (str ''0a1b2c3d'') (str ''first'')),
        (2, demo_entry (str ''4e5f6a7b'') (str ''second''))]"
proof -
  let ?es = "[demo_entry (str ''0a1b2c3d'') (str ''first''),
              demo_entry (str ''4e5f6a7b'') (str ''second'')]"
  have "distinct (map entry_id ?es)" by (simp add: demo_entry_def str_def)
  then obtain fs' where b: "build_index null_images zero_encode ?es no_files = (fs', Inr (length ?es))"
    using demo_completes[of ?es] by auto
  have e: "\<forall>ts. zero_encode ts = map (\<lambda>t. replicate EMBEDDING_DIM 0) ts"
    by (simp add: zero_encode_def)
  note a = identifier_alignment[OF b e]
  have r: "db_rows fs' = zip (map int [1..<Suc (length ?es)]) ?es"
    using build_index_Inr[OF b] by blast
  then have r2: "db_rows fs' = [(1, demo_entry (str ''0a1b2c3d'') (str ''first'')),
        (2, demo_entry (str ''4e5f6a7b'') (str ''second''))]" by simp
  have "index_items fs' = map (\<lambda>(rowid, e). (rowid, replicate EMBEDDING_DIM 0)) (db_rows fs')"
    using a by blast
  then have "index_items fs' = [(1, replicate EMBEDDING_DIM 0), (2, replicate EMBEDDING_DIM 0)]"
    unfolding r2 by simp
  then show ?thesis using b r2 by simp
qed

section \<open>Properties of the manifest generator\<close>

lemma hash_chunks_eq: "hash_chunks H fed rest = H (fed @ rest)"
proof (induction H fed rest rule: hash_chunks.induct)
  case (1 H fed rest)
  show ?case
  proof (cases "take 8192 rest = []")
    case True
    then have "rest = []" by (cases rest) simp_all
    then show ?thesis by (simp add: hash_chunks.simps[of H fed "[]"])
  next
    case False
    have "hash_chunks H fed rest = hash_chunks H (fed @ take 8192 rest) (drop 8192 rest)"
      using False by (subst hash_chunks.simps) simp
    also have "\<dots> = H ((fed @ take 8192 rest) @ drop 8192 rest)" using 1[OF False] .
    finally show ?thesis by simp
  qed
qed

lemma calculate_file_hash_File: "calculate_file_hash H (File b v) = Inr (H b)"
  by (simp add: calculate_file_hash_def hash_chunks_eq)

lemma file_record_File:
  "file_record H (File b v) =
     Inr (JObj [(str ''size_bytes'', JInt (len b)), (str ''sha256'', JStr (H b))])"
  by (simp add: file_record_def st_size_def calculate_file_hash_File)

lemma connect_File: "knowledge_db fs = File b v \<Longrightarrow> connect fs = (fs, v)"
  by (simp add: connect_def)

lemma key_neq:
  "str ''size_bytes'' \<noteq> str ''sha256''" "str ''content_hash'' \<noteq> str ''size_bytes''"
  "str ''content_hash'' \<noteq> str ''sha256''" "str ''knowledge.db'' \<noteq> str ''vectors.idx''"
  by (simp_all add: str_def)

lemma generate_manifest_ok:
  assumes "knowledge_db fs = File bd (Some db)" "entries db = Some rows" "vectors_idx fs = File bv v"
  shows "generate_manifest img H now version source_hash model fs =
           (fs\<lparr>manifest_json :=
                 File (json_image img
                         (manifest_doc version now source_hash model (len rows) (counts_of rows)
                            (JObj [(str ''size_bytes'', JInt (len bd)), (str ''sha256'', JStr (H bd))])
                            (JObj [(str ''size_bytes'', JInt (len bv)), (str ''sha256'', JStr (H bv))])))
                      (Some (manifest_doc version now source_hash model (len rows) (counts_of rows)
                            (JObj [(str ''size_bytes'', JInt (len bd)), (str ''sha256'', JStr (H bd))])
                            (JObj [(str ''size_bytes'', JInt (len bv)), (str ''sha256'', JStr (H bv))])))\<rparr>,
            Inr (manifest_doc version now source_hash model (len rows) (counts_of rows)
                   (JObj [(str ''size_bytes'', JInt (len bd)), (str ''sha256'', JStr (H bd))])
                   (JObj [(str ''size_bytes'', JInt (len bv)), (str ''sha256'', JStr (H bv))])))"
  using assms
  by (simp add: generate_manifest_def connect_File count_entries_def category_counts_def
        file_record_File)

lemma manifest_doc_fields:
  "json_get (manifest_doc version now source_hash model n cats db_rec vec_rec) (str ''total_entries'')
     = Some (JInt n)"
  "manifest_file_field (manifest_doc version now source_hash model n cats db_rec vec_rec)
     (str ''knowledge.db'') field = json_get db_rec field"
  "manifest_file_field (manifest_doc version now source_hash model n cats db_rec vec_rec)
     (str ''vectors.idx'') field = json_get vec_rec field"
  by (simp_all add: manifest_doc_def json_get_def manifest_file_field_def str_def
        split: option.splits)

lemma file_rec_fields:
  "json_get (JObj [(str ''size_bytes'', JInt n), (str ''sha256'', JStr h)]) (str ''size_bytes'')
     = Some (JInt n)"
  "json_get (JObj [(str ''size_bytes'', JInt n), (str ''sha256'', JStr h)]) (str ''sha256'')
     = Some (JStr h)"
  "json_get (JObj [(str ''size_bytes'', JInt n), (str ''sha256'', JStr h)]) (str ''content_hash'')
     = None"
  by (simp_all add: json_get_def str_def)

lemma verify_manifest_doc:
  assumes "knowledge_db fs = File bd (Some db)" "entries db = Some rows"
    "manifest_json fs = File b (Some (manifest_doc version now source_hash model (len rows) cats
        db_rec vec_rec))"
  shows "verify_manifest fs = (fs, True, ManifestOK (JStr version))"
  using assms
  by (simp add: verify_manifest_def manifest_doc_def connect_File count_entries_def
        has_key_def dict_get_def eq_int_def str_def)

subsection \<open>The claim about the manifest\<close>

text \<open>
  Claim C8, as stated, fails at the name of the hash field: the entry that the manifest
  holds for an artifact has no field "content_hash". The digest is under "sha256".
\<close>

theorem content_hash_counterexample:
  "map_sum id (\<lambda>m. manifest_file_field m (str ''knowledge.db'') (str ''content_hash''))
     (snd (generate_manifest null_images toy_digest (str ''2024-01-01T00:00:00+00:00'')
             (str ''1.0.0'') (str ''unknown'') (str ''all-MiniLM-L6-v2'') demo_files))
     = Inr None \<and>
   map_sum id (\<lambda>m. manifest_file_field m (str ''knowledge.db'') (str ''sha256''))
     (snd (generate_manifest null_images toy_digest (str ''2024-01-01T00:00:00+00:00'')
             (str ''1.0.0'') (str ''unknown'') (str ''all-MiniLM-L6-v2'') demo_files))
     = Inr (Some (JStr (toy_digest [83, 81, 76])))"
proof -
  have "knowledge_db demo_files = File [83, 81, 76] (Some demo_db)"
    "entries demo_db = Some [(1, demo_entry (str ''0a1b2c3d'') (str ''first''))]"
    "vectors_idx demo_files = File [1, 0] (Some demo_index)"
    by (simp_all add: demo_files_def demo_db_def)
  note g = generate_manifest_ok[OF this]
  show ?thesis
    unfolding g by (simp add: manifest_doc_fields file_rec_fields)
qed

text \<open>
  Claim C8, amended. For a directory with a readable database that has the table of
  entries, and with a vector index file, \<^verbatim>\<open>generate_manifest\<close> returns and writes a
  manifest and changes no artifact; its \<open>total_entries\<close> is the count of the rows of the
  table; for each of the two artifacts its \<open>files\<close> entry records the size of the file
  in bytes under "size_bytes" and its SHA-256 digest under "sha256"; computing the hash of
  the file again gives the recorded digest; and \<^verbatim>\<open>verify_manifest\<close> accepts the result.
\<close>

theorem manifest_round_trip:
  assumes "knowledge_db fs = File bd (Some db)" "entries db = Some rows" "vectors_idx fs = File bv v"
    "generate_manifest img H now version source_hash model fs = (fs', r)"
  shows "\<exists>m. r = Inr m \<and>
           manifest_json fs' = File (json_image img m) (Some m) \<and>
           knowledge_db fs' = knowledge_db fs \<and> vectors_idx fs' = vectors_idx fs \<and>
           json_get m (str ''total_entries'') = Some (JInt (len rows)) \<and>
           count_entries (snd (connect fs')) = Inr (len rows) \<and>
           manifest_file_field m (str ''knowledge.db'') (str ''size_bytes'') = Some (JInt (len bd)) \<and>
           manifest_file_field m (str ''knowledge.db'') (str ''sha256'') = Some (JStr (H bd)) \<and>
           calculate_file_hash H (knowledge_db fs') = Inr (H bd) \<and>
           manifest_file_field m (str ''vectors.idx'') (str ''size_bytes'') = Some (JInt (len bv)) \<and>
           manifest_file_field m (str ''vectors.idx'') (str ''sha256'') = Some (JStr (H bv)) \<and>
           calculate_file_hash H (vectors_idx fs') = Inr (H bv) \<and>
           fst (snd (verify_manifest fs'))"
proof -
  let ?m = "manifest_doc version now source_hash model (len rows) (counts_of rows)
              (JObj [(str ''size_bytes'', JInt (len bd)), (str ''sha256'', JStr (H bd))])
              (JObj [(str ''size_bytes'', JInt (len bv)), (str ''sha256'', JStr (H bv))])"
  have fs': "fs' = fs\<lparr>manifest_json := File (json_image img ?m) (Some ?m)\<rparr>" and r: "r = Inr ?m"
    using assms(4) unfolding generate_manifest_ok[OF assms(1-3)] by simp_all
  have k: "knowledge_db fs' = File bd (Some db)" "vectors_idx fs' = File bv v"
    "manifest_json fs' = File (json_image img ?m) (Some ?m)"
    using assms(1,3) fs' by simp_all
  have c: "count_entries (snd (connect fs')) = Inr (len rows)"
    using k(1) assms(2) by (simp add: connect_File count_entries_def)
  have vm: "fst (snd (verify_manifest fs'))"
    using verify_manifest_doc[OF k(1) assms(2) k(3)] by simp
  show ?thesis
    by (rule exI[of _ ?m])
       (simp add: r k c vm assms(1,3) manifest_doc_fields file_rec_fields calculate_file_hash_File)
qed

theorem manifest_round_trip_witness:
  "map_sum id (\<lambda>m. json_get m (str ''total_entries''))
     (snd (generate_manifest null_images toy_digest (str ''2024-01-01T00:00:00+00:00'')
             (str ''1.0.0'') (str ''unknown'') (str ''all-MiniLM-L6-v2'') demo_files))
     = Inr (Some (JInt 1)) \<and>
   map_sum id (\<lambda>m. manifest_file_field m (str ''knowledge.db'') (str ''size_bytes''))
     (snd (generate_manifest null_images toy_digest (str ''2024-01-01T00:00:00+00:00'')
             (str ''1.0.0'') (str ''unknown'') (str ''all-MiniLM-L6-v2'') demo_files))
     = Inr (Some (JInt 3)) \<and>
   calculate_file_hash toy_digest (knowledge_db demo_files) = Inr (toy_digest [83, 81, 76])"
proof -
  let ?g = "generate_manifest null_images toy_digest (str ''2024-01-01T00:00:00+00:00'')
             (str ''1.0.0'') (str ''unknown'') (str ''all-MiniLM-L6-v2'') demo_files"
  have a: "knowledge_db demo_files = File [83, 81, 76] (Some demo_db)"
    "entries demo_db = Some [(1, demo_entry (str ''0a1b2c3d'') (str ''first''))]"
    "vectors_idx demo_files = File [1, 0] (Some demo_index)"
    by (simp_all add: demo_files_def demo_db_def)
  have "?g = (fst ?g, snd ?g)" by simp
  from manifest_round_trip[OF a this] obtain m where
    m: "snd ?g = Inr m" "json_get m (str ''total_entries'')
          = Some (JInt (len [(1::int, demo_entry (str ''0a1b2c3d'') (str ''first''))]))"
      "manifest_file_field m (str ''knowledge.db'') (str ''size_bytes'')
          = Some (JInt (len [83, 81, 76::nat]))"
      "calculate_file_hash toy_digest (knowledge_db (fst ?g)) = Inr (toy_digest [83, 81, 76])"
      "knowledge_db (fst ?g) = knowledge_db demo_files"
    by blast
  show ?thesis using m by (simp add: len_def)
qed

end
